theory Spec2Isabelle
  imports Main "HOL-Library.AList" "HOL-Library.Char_ord" "HOL-Library.List_Lexorder"
begin

section \<open>Time-of-day strings\<close>

text \<open>
  The schedule calendar component keeps every time of day as a string \<open>HH:MM\<close> (the value
  of a time input) and every stored time as \<open>HH:MM:SS\<close>. The helpers below are the
  JavaScript string operations the component applies to them.
\<close>

text \<open>A decimal digit and its value (character codes 48 to 57).\<close>

definition digit_char :: "nat \<Rightarrow> char" where
  "digit_char d = char_of (48 + d)"

definition is_digit :: "char \<Rightarrow> bool" where
  "is_digit c = (48 \<le> (of_char c :: nat) \<and> (of_char c :: nat) \<le> 57)"

definition digit_val :: "char \<Rightarrow> nat" where
  "digit_val c = (of_char c :: nat) - 48"

text \<open>\<open>String(n)\<close> for a non-negative integer \<open>n\<close>: its decimal digits.\<close>

fun String_num :: "nat \<Rightarrow> string" where
  "String_num n =
     (if n < 10 then [digit_char n] else String_num (n div 10) @ [digit_char (n mod 10)])"

declare String_num.simps [simp del]

text \<open>\<open>s.padStart(n, c)\<close> with a one-character pad string.\<close>

definition padStart :: "nat \<Rightarrow> char \<Rightarrow> string \<Rightarrow> string" where
  "padStart n c s = replicate (n - length s) c @ s"

text \<open>\<open>s.split(c)\<close>: the pieces between the separators; the empty string gives one empty piece.\<close>

fun split_on :: "char \<Rightarrow> string \<Rightarrow> string list" where
  "split_on c [] = [[]]"
| "split_on c (x # xs) =
     (if x = c then [] # split_on c xs
      else (case split_on c xs of [] \<Rightarrow> [[x]] | p # ps \<Rightarrow> (x # p) # ps))"

text \<open>
  \<open>Number(s)\<close> on the strings a time value is made of. A JavaScript number is modelled as
  \<open>nat option\<close>, \<open>None\<close> being \<open>NaN\<close>: the empty string is 0, a string of decimal digits is
  its value, and any other string is not a part of a time value and is read as \<open>NaN\<close>.
\<close>

definition Number :: "string \<Rightarrow> nat option" where
  "Number s = (if list_all is_digit s then Some (foldl (\<lambda>a c. 10 * a + digit_val c) 0 s) else None)"

text \<open>
  The recurring source pattern
  \<^verbatim>\<open>const [h, m] = time.split(':').map(Number); ... h * 60 + m\<close>.
  A missing second piece is \<open>undefined\<close>, and arithmetic on \<open>undefined\<close> or \<open>NaN\<close> is \<open>NaN\<close>.
\<close>

definition minutesOf :: "string \<Rightarrow> nat option" where
  "minutesOf t =
     (case map Number (split_on CHR '':'' t) of
        Some h # Some m # _ \<Rightarrow> Some (h * 60 + m)
      | _ \<Rightarrow> None)"

text \<open>
  The recurring source pattern
  \<^verbatim>\<open>`${String(hours).padStart(2, '0')}:${String(minutes).padStart(2, '0')}`\<close>.
\<close>

definition formatHHMM :: "nat \<Rightarrow> nat \<Rightarrow> string" where
  "formatHHMM hours minutes =
     padStart 2 CHR ''0'' (String_num hours) @ '':'' @ padStart 2 CHR ''0'' (String_num minutes)"

text \<open>
  \<open>normalizeTime\<close>: to \<open>HH:MM:SS\<close>; a missing or empty piece (\<open>parts[i] || '00'\<close>) is \<open>00\<close>.
\<close>

definition part_or_00 :: "string list \<Rightarrow> nat \<Rightarrow> string" where
  "part_or_00 parts i = (if i < length parts \<and> parts ! i \<noteq> [] then parts ! i else ''00'')"

definition normalizeTime :: "string \<Rightarrow> string" where
  "normalizeTime t =
     (let parts = split_on CHR '':'' t;
          hours = padStart 2 CHR ''0'' (parts ! 0);
          minutes = padStart 2 CHR ''0'' (part_or_00 parts 1);
          seconds = padStart 2 CHR ''0'' (part_or_00 parts 2)
      in hours @ '':'' @ minutes @ '':'' @ seconds)"

text \<open>
  A time value \<open>HH:MM\<close> as a time input produces it: two digits, a colon, two digits, the
  hour below 24 and the minute below 60.
\<close>

definition isHHMM :: "string \<Rightarrow> bool" where
  "isHHMM t =
     (case t of
        [a, b, c, d, e] \<Rightarrow>
          is_digit a \<and> is_digit b \<and> c = CHR '':'' \<and> is_digit d \<and> is_digit e
          \<and> 10 * digit_val a + digit_val b < 24 \<and> 10 * digit_val d + digit_val e < 60
      | _ \<Rightarrow> False)"

section \<open>The slot generator\<close>

text \<open>
  The \<open>while\<close> loop of \<open>generateTimeSlots\<close>. With a zero duration it never ends, so the
  loop is a partial function and not returning is the value \<open>None\<close>.
\<close>

partial_function (option) generateLoop :: "nat \<Rightarrow> nat \<Rightarrow> nat \<Rightarrow> string list \<Rightarrow> string list option"
where
  "generateLoop currentMinutes quickSetupDuration toMinutes slots =
     (if currentMinutes + quickSetupDuration \<le> toMinutes
      then generateLoop (currentMinutes + quickSetupDuration) quickSetupDuration toMinutes
             (slots @ [formatHHMM (currentMinutes div 60) (currentMinutes mod 60)])
      else Some slots)"

declare generateLoop.simps [code]

definition generateTimeSlots :: "string \<Rightarrow> string \<Rightarrow> nat \<Rightarrow> string list option" where
  "generateTimeSlots quickSetupFromTime quickSetupToTime quickSetupDuration =
     (case (minutesOf quickSetupFromTime, minutesOf quickSetupToTime) of
        (Some fromMinutes, Some toMinutes) \<Rightarrow>
          generateLoop fromMinutes quickSetupDuration toMinutes []
      | _ \<Rightarrow> Some [])"

text \<open>
  The end of a slot that starts at \<open>startTime\<close> and lasts \<open>duration\<close> minutes, as the three
  places that compute one do (\<open>calculateEndTime\<close> and \<open>saveTimeSlot\<close> with 60 minutes,
  \<open>executeQuickSetup\<close> with the chosen duration): the hour wraps at 24, and an unreadable
  start prints as \<open>NaN:NaN\<close>.
\<close>

definition endTimeAfter :: "string \<Rightarrow> nat \<Rightarrow> string" where
  "endTimeAfter startTime duration =
     (case minutesOf startTime of
        Some startMinutes \<Rightarrow>
          (let totalMinutes = startMinutes + duration
           in formatHHMM ((totalMinutes div 60) mod 24) (totalMinutes mod 60))
      | None \<Rightarrow> ''NaN:NaN'')"

definition calculateEndTime :: "string \<Rightarrow> string" where
  "calculateEndTime startTime = endTimeAfter startTime 60"

section \<open>Data model\<close>

text \<open>
  A calendar date is modelled by its day number: the source renders it as \<open>YYYY-MM-DD\<close> and
  moves it with \<open>setDate(getDate() + k)\<close>, which is \<open>k\<close> calendar days later. Two \<open>Date\<close>
  objects that both stand at a local midnight compare as their day numbers do. The instant
  of a local midnight is read from the environment: a local day has 23 or 25 hours when the
  clock changes.
\<close>

type_synonym date = int

text \<open>The interfaces \<open>TimeSlot\<close> and \<open>DaySchedule\<close> (an absent \<open>booked\<close> reads as false).\<close>

record TimeSlot =
  id' :: string
  time :: string
  available :: bool
  booked :: bool

record DaySchedule =
  day :: string
  date :: date
  isOff :: bool
  slots :: "TimeSlot list"

text \<open>
  A row of the \<open>barber_slots\<close> table: the fields the component sends when it creates a
  slot, and those the store adds.
\<close>

record SlotPayload =
  slot_date :: date
  start_time :: string
  end_time :: string
  is_available :: bool

record SlotRow = SlotPayload +
  row_id :: string
  barber_id :: string
  is_booked :: bool

text \<open>A value of the working-day object in the key-value store, as JSON allows it.\<close>

datatype json = JBool bool | JNum int | JStr string | JNull

type_synonym workingDays = "(date \<times> json) list"

text \<open>The requests the component sends to the store, and what it leaves in its trace.\<close>

datatype request =
    ListSlots string date date
  | CreateSlot string SlotPayload
  | UpdateSlot string string string string
  | DeleteSlot string string
  | BatchReplace string "SlotPayload list" date date
  | DeleteDay "string option" date
  | LatestSlot "string option" date
  | KvGet string
  | KvPut string workingDays

datatype event = Request request | ToastError | ToastSuccess

text \<open>
  The state: the component's React state, the store behind it, and the trace of requests
  and toasts. The loading and skeleton flags are presentation only and are left out
  (the buttons are those of the calendar once it is shown).
\<close>

record world =
  barberId :: "string option"
  weekSchedule :: "DaySchedule list"
  pageIndex :: int
  editingSlot :: "(nat \<times> string) option"
  editingTime :: string
  pauseAutoReload :: bool
  showTimePickerModal :: bool
  timePickerDayIndex :: "nat option"
  selectedStartTime :: string
  quickSetupFromTime :: string
  quickSetupToTime :: string
  quickSetupDuration :: nat
  quickSetupError :: string
  showQuickSetupConfirmModal :: bool
  isQuickSetupProcessing :: bool
  barber_slots :: "SlotRow list"
  kv :: "(string \<times> workingDays) list"
  next_id :: nat
  trace :: "event list"

text \<open>
  What a handler reads from outside: the session token in local storage (modelled by the
  barber it belongs to), the clock, the answer to \<open>window.confirm\<close>, and whether the store
  accepts a request (an ok response, or no error from the table client). A request that is
  not accepted answers with an error and changes nothing; an exception raised by the
  transport itself is not modelled. \<open>env_midnight d\<close> is the instant at which the local day
  \<open>d\<close> starts, in milliseconds: what \<open>getTime()\<close> returns for \<open>new Date(d + 'T00:00:00')\<close>.
\<close>

record env =
  env_sessionToken :: "string option"
  env_today :: date
  env_nowMinutes :: nat
  env_midnight :: "date \<Rightarrow> int"
  env_confirm :: bool
  env_accepts :: "request \<Rightarrow> bool"

section \<open>The store\<close>

text \<open>
  Modelled from the spec: the slot store and the working-day store are external to the
  component (the server functions and the tables are not part of the component's source).
  The store lists by provider and date range including booked slots, creates, updates and
  deletes one slot, replaces a date range in one unit, deletes the slots of one provider and
  date, and keeps one JSON object per key; times are stored with seconds.
\<close>

definition inRange :: "string \<Rightarrow> date \<Rightarrow> date \<Rightarrow> SlotRow \<Rightarrow> bool" where
  "inRange b dateFrom dateTo r = (barber_id r = b \<and> dateFrom \<le> slot_date r \<and> slot_date r \<le> dateTo)"

definition listByDateRange :: "SlotRow list \<Rightarrow> string \<Rightarrow> date \<Rightarrow> date \<Rightarrow> SlotRow list" where
  "listByDateRange rows b dateFrom dateTo = filter (inRange b dateFrom dateTo) rows"

definition newRow :: "nat \<Rightarrow> string \<Rightarrow> SlotPayload \<Rightarrow> SlotRow" where
  "newRow n b p =
     \<lparr>slot_date = slot_date p, start_time = normalizeTime (start_time p),
      end_time = normalizeTime (end_time p), is_available = is_available p,
      row_id = String_num n, barber_id = b, is_booked = False\<rparr>"

fun insertAll :: "string \<Rightarrow> SlotPayload list \<Rightarrow> nat \<Rightarrow> SlotRow list" where
  "insertAll b [] n = []"
| "insertAll b (p # ps) n = newRow n b p # insertAll b ps (Suc n)"

fun serve :: "request \<Rightarrow> world \<Rightarrow> world" where
  "serve (ListSlots b dateFrom dateTo) s = s"
| "serve (CreateSlot b p) s =
     s\<lparr>barber_slots := barber_slots s @ [newRow (next_id s) b p], next_id := Suc (next_id s)\<rparr>"
| "serve (UpdateSlot b i startTime endTime) s =
     s\<lparr>barber_slots :=
         map (\<lambda>r. if row_id r = i \<and> barber_id r = b
                  then r\<lparr>start_time := normalizeTime startTime, end_time := normalizeTime endTime\<rparr>
                  else r)
           (barber_slots s)\<rparr>"
| "serve (DeleteSlot b i) s =
     s\<lparr>barber_slots := filter (\<lambda>r. \<not> (row_id r = i \<and> barber_id r = b)) (barber_slots s)\<rparr>"
| "serve (BatchReplace b ps dateFrom dateTo) s =
     s\<lparr>barber_slots :=
         filter (\<lambda>r. \<not> inRange b dateFrom dateTo r) (barber_slots s) @ insertAll b ps (next_id s),
       next_id := next_id s + length ps\<rparr>"
| "serve (DeleteDay bo d) s =
     s\<lparr>barber_slots :=
         filter (\<lambda>r. \<not> (Some (barber_id r) = bo \<and> slot_date r = d)) (barber_slots s)\<rparr>"
| "serve (LatestSlot bo d) s = s"
| "serve (KvGet k) s = s"
| "serve (KvPut k v) s = s\<lparr>kv := AList.update k v (kv s)\<rparr>"

text \<open>
  The answer to the query of \<open>openAddSlotDialog\<close>: the start times of one barber and date,
  latest first, at most one (\<open>order('start_time', {ascending: false}).limit(1)\<close>). Stored
  times are \<open>HH:MM:SS\<close>, which the order of the strings orders by time.
\<close>

definition latestSlots :: "SlotRow list \<Rightarrow> string option \<Rightarrow> date \<Rightarrow> string list" where
  "latestSlots rows bo d =
     take 1 (rev (sort (map start_time
                          (filter (\<lambda>r. Some (barber_id r) = bo \<and> slot_date r = d) rows))))"

text \<open>
  Sending a request: it is traced, and the store applies it when it accepts it. The flag is
  \<open>response.ok\<close> (for the table client, the absence of \<open>error\<close>).
\<close>

definition emit :: "event \<Rightarrow> world \<Rightarrow> world" where
  "emit ev s = s\<lparr>trace := trace s @ [ev]\<rparr>"

definition call :: "env \<Rightarrow> request \<Rightarrow> world \<Rightarrow> bool \<times> world" where
  "call e r s =
     (if env_accepts e r then (True, serve r (emit (Request r) s))
      else (False, emit (Request r) s))"

section \<open>The schedule calendar component\<close>

definition DAYS_PER_PAGE :: nat where
  "DAYS_PER_PAGE = 8"

text \<open>
  \<open>getPageStartDate\<close> and \<open>getActualDate\<close>: the page starts \<open>pageIdx * DAYS_PER_PAGE\<close> days
  after today.
\<close>

definition getPageStartDate :: "env \<Rightarrow> int \<Rightarrow> date" where
  "getPageStartDate e pageIdx = env_today e + pageIdx * int DAYS_PER_PAGE"

definition getActualDate :: "env \<Rightarrow> nat \<Rightarrow> int \<Rightarrow> date" where
  "getActualDate e dayIndex pageIdx = getPageStartDate e pageIdx + int dayIndex"

subsection \<open>Loading\<close>

text \<open>The key of the working-day object; a null \<open>barberId\<close> prints as \<open>null\<close>.\<close>

definition workingDaysKey :: "string option \<Rightarrow> string" where
  "workingDaysKey b = ''working_days_'' @ (case b of None \<Rightarrow> ''null'' | Some x \<Rightarrow> x)"

text \<open>Reading the working-day object: any failure, or no stored value, gives the empty object.\<close>

definition readWorkingDays :: "env \<Rightarrow> world \<Rightarrow> workingDays \<times> world" where
  "readWorkingDays e s =
     (let workingDaysKey' = workingDaysKey (barberId s)
      in case call e (KvGet workingDaysKey') s of
           (True, s1) \<Rightarrow>
             (case map_of (kv s1) workingDaysKey' of
                Some v \<Rightarrow> (v, s1)
              | None \<Rightarrow> ([], s1))
         | (False, s1) \<Rightarrow> ([], s1))"

text \<open>The empty schedule of a page: a day is off unless the object binds its date to \<open>true\<close>.\<close>

definition emptyDay :: "env \<Rightarrow> int \<Rightarrow> workingDays \<Rightarrow> nat \<Rightarrow> DaySchedule" where
  "emptyDay e pageIdx workingDaysData idx =
     (let dateStr = getActualDate e idx pageIdx;
          isWorkingDay = (map_of workingDaysData dateStr = Some (JBool True))
      in \<lparr>day = [], date = dateStr, isOff = \<not> isWorkingDay, slots = []\<rparr>)"

definition toTimeSlot :: "SlotRow \<Rightarrow> TimeSlot" where
  "toTimeSlot slot =
     (let formattedTime = take 5 (start_time slot);
          isBooked = (is_booked slot = True)
      in \<lparr>id' = row_id slot, time = formattedTime, available = \<not> isBooked, booked = isBooked\<rparr>)"

text \<open>
  The day index of a fetched row:
  \<^verbatim>\<open>Math.floor((slotDate.getTime() - windowStart.getTime()) / (1000 * 60 * 60 * 24))\<close>,
  both dates standing at their local midnight. It is the number of calendar days between
  them when every day in between has 24 hours, and one less after a day of 23 hours.
\<close>

definition daysDiff :: "env \<Rightarrow> date \<Rightarrow> date \<Rightarrow> int" where
  "daysDiff e windowStart slotDate =
     (env_midnight e slotDate - env_midnight e windowStart) div (1000 * 60 * 60 * 24)"

text \<open>\<open>data.forEach\<close>: each fetched row whose day index is inside the page is pushed onto that day.\<close>

fun placeSlots :: "env \<Rightarrow> date \<Rightarrow> SlotRow list \<Rightarrow> DaySchedule list \<Rightarrow> DaySchedule list" where
  "placeSlots e windowStart [] newSchedule = newSchedule"
| "placeSlots e windowStart (slot # data) newSchedule =
     (let diff = daysDiff e windowStart (slot_date slot)
      in if diff \<ge> 0 \<and> diff < int DAYS_PER_PAGE
         then (let dayIndex = nat diff;
                   theDay = newSchedule ! dayIndex
               in placeSlots e windowStart data
                    (newSchedule[dayIndex := theDay\<lparr>slots := slots theDay @ [toTimeSlot slot]\<rparr>]))
         else placeSlots e windowStart data newSchedule)"

text \<open>
  The slots of a day are sorted by minute of day (the sort is stable). A time that does not
  read as a number makes the comparator return \<open>NaN\<close>; the model gives it the key 0.
\<close>

definition sortKey :: "TimeSlot \<Rightarrow> nat" where
  "sortKey a = (case minutesOf (time a) of Some m \<Rightarrow> m | None \<Rightarrow> 0)"

definition sortDay :: "DaySchedule \<Rightarrow> DaySchedule" where
  "sortDay d = d\<lparr>slots := sort_key sortKey (slots d)\<rparr>"

text \<open>The schedule \<open>loadSlots\<close> builds from the fetched rows and the working-day object.\<close>

definition buildSchedule :: "env \<Rightarrow> int \<Rightarrow> workingDays \<Rightarrow> SlotRow list \<Rightarrow> DaySchedule list" where
  "buildSchedule e pageIdx workingDaysData data =
     (let windowStart = getPageStartDate e pageIdx;
          newSchedule = map (emptyDay e pageIdx workingDaysData) [0..<DAYS_PER_PAGE]
      in if data \<noteq> [] then map sortDay (placeSlots e windowStart data newSchedule)
         else newSchedule)"

text \<open>
  \<open>loadSlots\<close>: nothing without a barber, an error toast without a session token or when
  the fetch is refused (the schedule is then kept as it is), and the built schedule
  otherwise.
\<close>

definition loadSlots :: "env \<Rightarrow> world \<Rightarrow> world" where
  "loadSlots e s =
     (case barberId s of
        None \<Rightarrow> s
      | Some b \<Rightarrow>
          (case env_sessionToken e of
             None \<Rightarrow> emit ToastError s
           | Some sessionToken \<Rightarrow>
               (let windowStart = getPageStartDate e (pageIndex s);
                    windowEnd = windowStart + (int DAYS_PER_PAGE - 1)
                in case call e (ListSlots sessionToken windowStart windowEnd) s of
                     (False, s1) \<Rightarrow> emit ToastError s1
                   | (True, s1) \<Rightarrow>
                       (let data = listByDateRange (barber_slots s1) sessionToken windowStart windowEnd;
                            (workingDaysData, s2) = readWorkingDays e s1
                        in s2\<lparr>weekSchedule := buildSchedule e (pageIndex s) workingDaysData data\<rparr>))))"

subsection \<open>Working days\<close>

text \<open>
  \<open>updateWorkingDayState\<close>: read the object, bind the date to \<open>true\<close> or delete its key,
  write the object back. Nothing is reported to the caller: without a session token the
  function returns at once, and a refused write is only logged.
\<close>

definition updateWorkingDayState :: "env \<Rightarrow> date \<Rightarrow> bool \<Rightarrow> world \<Rightarrow> world" where
  "updateWorkingDayState e d isWorkingDay s =
     (case env_sessionToken e of
        None \<Rightarrow> s
      | Some sessionToken \<Rightarrow>
          (let (workingDaysData, s1) = readWorkingDays e s;
               updated = (if isWorkingDay then AList.update d (JBool True) workingDaysData
                          else AList.delete d workingDaysData)
           in snd (call e (KvPut (workingDaysKey (barberId s)) updated) s1)))"

text \<open>
  \<open>setWeekSchedule(prev => prev.map((day, idx) => idx === dayIndex ? f(day) : day))\<close>.
\<close>

definition setDay :: "nat \<Rightarrow> (DaySchedule \<Rightarrow> DaySchedule) \<Rightarrow> world \<Rightarrow> world" where
  "setDay dayIndex f s =
     s\<lparr>weekSchedule :=
         map (\<lambda>(idx, d). if idx = dayIndex then f d else d) (enumerate 0 (weekSchedule s))\<rparr>"

text \<open>
  \<open>toggleDayOff\<close>. Reading \<open>isOff\<close> of a day that is not in the schedule raises a
  \<open>TypeError\<close> before anything is done.
\<close>

definition toggleDayOff :: "env \<Rightarrow> nat \<Rightarrow> world \<Rightarrow> world" where
  "toggleDayOff e dayIndex s =
     (if dayIndex \<ge> length (weekSchedule s) then s
      else
        (let currentDay = weekSchedule s ! dayIndex;
             newIsOff = (\<not> isOff currentDay);
             slotDate = getActualDate e dayIndex (pageIndex s)
         in if newIsOff
            then (case call e (DeleteDay (barberId s) slotDate) s of
                    (False, s1) \<Rightarrow> emit ToastError s1
                  | (True, s1) \<Rightarrow>
                      emit ToastSuccess
                        (setDay dayIndex (\<lambda>d. d\<lparr>isOff := True, slots := []\<rparr>)
                           (updateWorkingDayState e slotDate False s1)))
            else emit ToastSuccess
                   (setDay dayIndex (\<lambda>d. d\<lparr>isOff := False\<rparr>)
                      (updateWorkingDayState e slotDate True s))))"

subsection \<open>Single slots\<close>

text \<open>\<open>isDuplicateTime\<close>; \<open>excludeSlotId\<close> is optional.\<close>

definition isDuplicateTime :: "world \<Rightarrow> nat \<Rightarrow> string \<Rightarrow> string option \<Rightarrow> bool" where
  "isDuplicateTime s dayIndex t excludeSlotId =
     (if dayIndex < length (weekSchedule s)
      then list_ex (\<lambda>slot. time slot = t \<and> Some (id' slot) \<noteq> excludeSlotId)
             (slots (weekSchedule s ! dayIndex))
      else False)"

definition instantAddTimeSlot :: "env \<Rightarrow> nat \<Rightarrow> string \<Rightarrow> world \<Rightarrow> world" where
  "instantAddTimeSlot e dayIndex slotTime s =
     (let slotDate = getActualDate e dayIndex (pageIndex s);
          selectedDate = slotDate
      in if selectedDate < env_today e then emit ToastError s
         else if selectedDate = env_today e
                 \<and> (case minutesOf slotTime of
                       Some slotMinutes \<Rightarrow> slotMinutes \<le> env_nowMinutes e
                     | None \<Rightarrow> False)
         then emit ToastError s
         else
           (case env_sessionToken e of
              None \<Rightarrow> emit ToastError s
            | Some sessionToken \<Rightarrow>
                (let startTime = normalizeTime slotTime;
                     endTime = normalizeTime (calculateEndTime slotTime);
                     payload = \<lparr>slot_date = slotDate, start_time = startTime,
                                end_time = endTime, is_available = True\<rparr>
                 in case call e (CreateSlot sessionToken payload) s of
                      (False, s1) \<Rightarrow> emit ToastError s1
                    | (True, s1) \<Rightarrow> loadSlots e (emit ToastSuccess s1))))"

definition removeTimeSlot :: "env \<Rightarrow> nat \<Rightarrow> string \<Rightarrow> world \<Rightarrow> world" where
  "removeTimeSlot e dayIndex slotId s =
     (case env_sessionToken e of
        None \<Rightarrow> emit ToastError s
      | Some sessionToken \<Rightarrow>
          (case call e (DeleteSlot sessionToken slotId) s of
             (False, s1) \<Rightarrow> emit ToastError s1
           | (True, s1) \<Rightarrow>
               loadSlots e
                 (emit ToastSuccess
                    (setDay dayIndex
                       (\<lambda>d. d\<lparr>slots := filter (\<lambda>slot. id' slot \<noteq> slotId) (slots d)\<rparr>) s1))))"

definition startEditingSlot :: "nat \<Rightarrow> string \<Rightarrow> string \<Rightarrow> world \<Rightarrow> world" where
  "startEditingSlot dayIndex slotId t s =
     s\<lparr>editingSlot := Some (dayIndex, slotId), editingTime := t, pauseAutoReload := True\<rparr>"

definition cancelEditingSlot :: "world \<Rightarrow> world" where
  "cancelEditingSlot s = s\<lparr>editingSlot := None, editingTime := ''09:00'', pauseAutoReload := False\<rparr>"

text \<open>
  \<open>saveTimeSlot\<close>. After an accepted update the local schedule is patched and sorted with
  \<open>localeCompare\<close>, which on time strings is the order of the strings.
\<close>

definition saveTimeSlot :: "env \<Rightarrow> world \<Rightarrow> world" where
  "saveTimeSlot e s =
     (case editingSlot s of
        None \<Rightarrow> s
      | Some (dayIndex, slotId) \<Rightarrow>
          if isDuplicateTime s dayIndex (editingTime s) (Some slotId) then emit ToastError s
          else
            (let endTime = endTimeAfter (editingTime s) 60
             in case env_sessionToken e of
                  None \<Rightarrow> (emit ToastError s)\<lparr>pauseAutoReload := False\<rparr>
                | Some sessionToken \<Rightarrow>
                    (case call e (UpdateSlot sessionToken slotId (editingTime s) endTime) s of
                       (False, s1) \<Rightarrow> (emit ToastError s1)\<lparr>pauseAutoReload := False\<rparr>
                     | (True, s1) \<Rightarrow>
                         cancelEditingSlot
                           (emit ToastSuccess
                              (setDay dayIndex
                                 (\<lambda>d. d\<lparr>slots :=
                                         sort_key time
                                           (map (\<lambda>slot. if id' slot = slotId
                                                         then slot\<lparr>time := editingTime s\<rparr>
                                                         else slot)
                                              (slots d))\<rparr>)
                                 s1)))))"

text \<open>
  \<open>openAddSlotDialog\<close>, the handler of the add button of a day. A day without slots opens
  the time picker at the current time. A day with slots asks the store for the latest slot of
  the date and adds a slot 30 minutes after it (the hour is not wrapped at 24); the
  duplicate test and the guards of \<open>instantAddTimeSlot\<close> come after that read.
\<close>

definition nextTime :: "string \<Rightarrow> string" where
  "nextTime lastStart =
     (case minutesOf lastStart of
        Some m \<Rightarrow>
          (let totalMinutes = m + 30
           in formatHHMM (totalMinutes div 60) (totalMinutes mod 60))
      | None \<Rightarrow> ''NaN:NaN'')"

definition openAddSlotDialog :: "env \<Rightarrow> nat \<Rightarrow> world \<Rightarrow> world" where
  "openAddSlotDialog e dayIndex s =
     (let slotDate = getActualDate e dayIndex (pageIndex s);
          existingSlotsForDay =
            (if dayIndex < length (weekSchedule s) then slots (weekSchedule s ! dayIndex) else [])
      in if length existingSlotsForDay = 0
         then s\<lparr>selectedStartTime := formatHHMM (env_nowMinutes e div 60) (env_nowMinutes e mod 60),
                timePickerDayIndex := Some dayIndex, showTimePickerModal := True\<rparr>
         else
           (case call e (LatestSlot (barberId s) slotDate) s of
              (False, s1) \<Rightarrow> emit ToastError s1
            | (True, s1) \<Rightarrow>
                (case latestSlots (barber_slots s1) (barberId s) slotDate of
                   [] \<Rightarrow> s1
                 | lastSlot # _ \<Rightarrow>
                     if isDuplicateTime s1 dayIndex (nextTime lastSlot) None then emit ToastError s1
                     else instantAddTimeSlot e dayIndex (nextTime lastSlot) s1)))"

definition handleTimePickerConfirm :: "env \<Rightarrow> world \<Rightarrow> world" where
  "handleTimePickerConfirm e s =
     (case timePickerDayIndex s of
        None \<Rightarrow> emit ToastError s
      | Some dayIndex \<Rightarrow>
          if selectedStartTime s = [] then emit ToastError s
          else if isDuplicateTime s dayIndex (selectedStartTime s) None then emit ToastError s
          else (instantAddTimeSlot e dayIndex (selectedStartTime s)
                  (s\<lparr>showTimePickerModal := False\<rparr>))
                 \<lparr>timePickerDayIndex := None, selectedStartTime := []\<rparr>)"

subsection \<open>Quick setup\<close>

text \<open>
  \<open>validateQuickSetup\<close>: the range must be increasing and the duration positive. A
  comparison with \<open>NaN\<close> is false, so an unreadable time passes the first test.
\<close>

definition validateQuickSetup :: "world \<Rightarrow> bool \<times> world" where
  "validateQuickSetup s =
     (let s0 = s\<lparr>quickSetupError := []\<rparr>
      in if (case (minutesOf (quickSetupFromTime s), minutesOf (quickSetupToTime s)) of
               (Some fromMinutes, Some toMinutes) \<Rightarrow> fromMinutes \<ge> toMinutes
             | _ \<Rightarrow> False)
         then (False, s0\<lparr>quickSetupError := ''Start time must be earlier than end time''\<rparr>)
         else if quickSetupDuration s \<le> 0
         then (False, s0\<lparr>quickSetupError := ''Duration must be greater than 0''\<rparr>)
         else (True, s0))"

definition hasExistingSlots :: "world \<Rightarrow> bool" where
  "hasExistingSlots s = list_ex (\<lambda>d. length (slots d) > 0) (weekSchedule s)"

text \<open>
  The slots \<open>executeQuickSetup\<close> builds for one day offset: on day 0 a start at or before
  the current minute is skipped.
\<close>

definition slotsForDay :: "env \<Rightarrow> nat \<Rightarrow> string list \<Rightarrow> nat \<Rightarrow> SlotPayload list" where
  "slotsForDay e dayOffset slotTimes duration =
     map (\<lambda>slotTime.
            \<lparr>slot_date = env_today e + int dayOffset,
             start_time = normalizeTime slotTime,
             end_time = normalizeTime (endTimeAfter slotTime duration),
             is_available = True\<rparr>)
       (filter (\<lambda>slotTime.
                  \<not> (dayOffset = 0
                     \<and> (case minutesOf slotTime of
                           Some slotMinutes \<Rightarrow> slotMinutes \<le> env_nowMinutes e
                         | None \<Rightarrow> False)))
          slotTimes)"

definition allSlotsToInsert :: "env \<Rightarrow> string list \<Rightarrow> nat \<Rightarrow> SlotPayload list" where
  "allSlotsToInsert e slotTimes duration =
     concat (map (\<lambda>dayOffset. slotsForDay e dayOffset slotTimes duration) [0..<7])"

definition workingDayUpdates :: "env \<Rightarrow> date list" where
  "workingDayUpdates e = map (\<lambda>dayOffset. env_today e + int dayOffset) [0..<7]"

text \<open>
  \<open>executeQuickSetup\<close>; \<open>None\<close> when the generator does not return. The batch request is
  sent only when there is something to insert.
\<close>

definition executeQuickSetup :: "env \<Rightarrow> world \<Rightarrow> world option" where
  "executeQuickSetup e s =
     (let s0 = s\<lparr>showQuickSetupConfirmModal := False, isQuickSetupProcessing := True\<rparr>
      in case env_sessionToken e of
           None \<Rightarrow> Some ((emit ToastError s0)\<lparr>isQuickSetupProcessing := False\<rparr>)
         | Some sessionToken \<Rightarrow>
             (case generateTimeSlots (quickSetupFromTime s0) (quickSetupToTime s0)
                     (quickSetupDuration s0) of
                None \<Rightarrow> None
              | Some slotTimes \<Rightarrow>
                  (let toInsert = allSlotsToInsert e slotTimes (quickSetupDuration s0);
                       todayStr = env_today e;
                       lastDateStr = env_today e + 6;
                       (ok, s1) = (if toInsert \<noteq> []
                                   then call e (BatchReplace sessionToken toInsert todayStr lastDateStr) s0
                                   else (True, s0))
                   in if \<not> ok
                      then Some ((loadSlots e (emit ToastError s1))\<lparr>isQuickSetupProcessing := False\<rparr>)
                      else Some ((loadSlots e
                                    (emit ToastSuccess
                                       (fold (\<lambda>dateStr. updateWorkingDayState e dateStr True)
                                          (workingDayUpdates e) s1)))
                                 \<lparr>isQuickSetupProcessing := False\<rparr>))))"

definition handleQuickSetup :: "env \<Rightarrow> world \<Rightarrow> world option" where
  "handleQuickSetup e s =
     (case validateQuickSetup s of
        (False, s1) \<Rightarrow> Some s1
      | (True, s1) \<Rightarrow>
          if hasExistingSlots s1 then Some (s1\<lparr>showQuickSetupConfirmModal := True\<rparr>)
          else executeQuickSetup e s1)"

text \<open>
  The deleting loop of \<open>handleQuickSetupClear\<close> over the days of the page; a refused
  delete throws and leaves the loop.
\<close>

datatype outcome = Done world | Thrown world

fun clearDays :: "env \<Rightarrow> nat list \<Rightarrow> world \<Rightarrow> outcome" where
  "clearDays e [] s = Done s"
| "clearDays e (dayIdx # rest) s =
     (let dateStr = getActualDate e dayIdx (pageIndex s)
      in if dateStr < env_today e then clearDays e rest s
         else (case call e (DeleteDay (barberId s) dateStr) s of
                 (False, s1) \<Rightarrow> Thrown s1
               | (True, s1) \<Rightarrow> clearDays e rest (updateWorkingDayState e dateStr False s1)))"

definition handleQuickSetupClear :: "env \<Rightarrow> world \<Rightarrow> world" where
  "handleQuickSetupClear e s =
     (case barberId s of
        None \<Rightarrow> s
      | Some b \<Rightarrow>
          if \<not> env_confirm e then s
          else
            (let s0 = s\<lparr>isQuickSetupProcessing := True\<rparr>;
                 clearedSchedule =
                   map (\<lambda>(dayIdx, d).
                          if getActualDate e dayIdx (pageIndex s) < env_today e then d
                          else d\<lparr>slots := []\<rparr>)
                     (enumerate 0 (weekSchedule s));
                 s1 = s0\<lparr>weekSchedule := clearedSchedule\<rparr>
             in case clearDays e [0..<DAYS_PER_PAGE] s1 of
                  Thrown s2 \<Rightarrow> (loadSlots e (emit ToastError s2))\<lparr>isQuickSetupProcessing := False\<rparr>
                | Done s2 \<Rightarrow> (loadSlots e (emit ToastSuccess s2))\<lparr>isQuickSetupProcessing := False\<rparr>))"

subsection \<open>The rendered controls\<close>





section \<open>Observations and example states\<close>

text \<open>
  The stored working-day flag of a date: the value the working-day object of the
  component's barber binds it to, if any.
\<close>

definition storedFlag :: "world \<Rightarrow> date \<Rightarrow> json option" where
  "storedFlag s d =
     (case map_of (kv s) (workingDaysKey (barberId s)) of
        Some workingDaysData \<Rightarrow> map_of workingDaysData d
      | None \<Rightarrow> None)"

text \<open>
  An environment and states to run the handlers on: barber \<open>b1\<close> is logged in, today is
  day 100, the time is 09:15, every day has 24 hours, the store accepts every request, and
  the quick setup inputs are 09:00 to 10:00 in steps of 30 minutes.
\<close>

definition exampleEnv :: env where
  "exampleEnv = \<lparr>env_sessionToken = Some ''b1'', env_today = 100, env_nowMinutes = 555,
                  env_midnight = (\<lambda>d. d * 86400000),
                  env_confirm = True, env_accepts = (\<lambda>r. True)\<rparr>"

definition exampleRow :: "string \<Rightarrow> date \<Rightarrow> string \<Rightarrow> bool \<Rightarrow> SlotRow" where
  "exampleRow i d t b =
     \<lparr>slot_date = d, start_time = t, end_time = normalizeTime (calculateEndTime (take 5 t)),
      is_available = True, row_id = i, barber_id = ''b1'', is_booked = b\<rparr>"

definition exampleWorld :: "SlotRow list \<Rightarrow> world" where
  "exampleWorld rows =
     \<lparr>barberId = Some ''b1'', weekSchedule = [], pageIndex = 0, editingSlot = None,
      editingTime = ''09:00'', pauseAutoReload = False, showTimePickerModal = False,
      timePickerDayIndex = None, selectedStartTime = [], quickSetupFromTime = ''09:00'',
      quickSetupToTime = ''10:00'', quickSetupDuration = 30, quickSetupError = [],
      showQuickSetupConfirmModal = False, isQuickSetupProcessing = False,
      barber_slots = rows, kv = [], next_id = 0, trace = []\<rparr>"

text \<open>The state after the component has loaded page \<open>pageIdx\<close> from a store holding \<open>rows\<close>.\<close>

definition loadedExample :: "SlotRow list \<Rightarrow> int \<Rightarrow> world" where
  "loadedExample rows pageIdx = loadSlots exampleEnv ((exampleWorld rows)\<lparr>pageIndex := pageIdx\<rparr>)"

text \<open>A day of the example made a working day by its toggle, after loading page 0.\<close>

definition workingExample :: "SlotRow list \<Rightarrow> world" where
  "workingExample rows = toggleDayOff exampleEnv 0 (loadedExample rows 0)"

text \<open>The refetches in a trace: the requests that list the slots of the page.\<close>

definition isRefetch :: "event \<Rightarrow> bool" where
  "isRefetch ev = (case ev of Request (ListSlots b dateFrom dateTo) \<Rightarrow> True | _ \<Rightarrow> False)"

definition refetches :: "world \<Rightarrow> nat" where
  "refetches s = length (filter isRefetch (trace s))"

text \<open>The two guards of \<open>instantAddTimeSlot\<close>: the day is past, or it is today and the time has passed.\<close>

definition addRejected :: "env \<Rightarrow> nat \<Rightarrow> string \<Rightarrow> world \<Rightarrow> bool" where
  "addRejected e dayIndex slotTime s =
     (getActualDate e dayIndex (pageIndex s) < env_today e
      \<or> (getActualDate e dayIndex (pageIndex s) = env_today e
          \<and> (\<exists>slotMinutes. minutesOf slotTime = Some slotMinutes
                \<and> slotMinutes \<le> env_nowMinutes e)))"

text \<open>An environment in which the store refuses every request.\<close>

definition refusingEnv :: env where
  "refusingEnv = exampleEnv\<lparr>env_accepts := (\<lambda>r. False)\<rparr>"

text \<open>
  The same environment without a session token, and with a store that refuses to write the
  working-day object.
\<close>

definition noTokenEnv :: env where
  "noTokenEnv = exampleEnv\<lparr>env_sessionToken := None\<rparr>"

definition noPutEnv :: env where
  "noPutEnv = exampleEnv\<lparr>env_accepts := (\<lambda>r. case r of KvPut k v \<Rightarrow> False | _ \<Rightarrow> True)\<rparr>"

text \<open>
  The same environment in a week in which the clock is put forward by one hour during day
  101, so that day 101 has 23 hours.
\<close>

definition springForwardEnv :: env where
  "springForwardEnv =
     exampleEnv\<lparr>env_midnight := (\<lambda>d. d * 86400000 - (if d > 101 then 3600000 else 0))\<rparr>"

text \<open>Every day of the page that starts on \<open>windowStart\<close> has 24 hours.\<close>

definition daysOf24Hours :: "env \<Rightarrow> date \<Rightarrow> bool" where
  "daysOf24Hours e windowStart =
     list_all (\<lambda>k. env_midnight e (windowStart + int k) - env_midnight e windowStart
                    = int k * (1000 * 60 * 60 * 24))
       [0..<DAYS_PER_PAGE]"

text \<open>
  The dates the clearing loop acts on: those of the given day indices of a page that are
  not before today. The state an outcome carries.
\<close>

definition clearedDates :: "env \<Rightarrow> int \<Rightarrow> nat list \<Rightarrow> date list" where
  "clearedDates e pageIdx idxs =
     filter (\<lambda>d. \<not> d < env_today e) (map (\<lambda>k. getActualDate e k pageIdx) idxs)"

fun outcomeState :: "outcome \<Rightarrow> world" where
  "outcomeState (Done s) = s"
| "outcomeState (Thrown s) = s"

section \<open>Properties of the time strings\<close>

lemma digit_char_props: "d < 10 \<Longrightarrow> digit_val (digit_char d) = d \<and> is_digit (digit_char d)"
  by (simp add: digit_val_def digit_char_def is_digit_def)

lemma digit_char_val: "is_digit c \<Longrightarrow> digit_char (digit_val c) = c \<and> digit_val c < 10"
  by (auto simp: digit_val_def digit_char_def is_digit_def)

lemma digit_char_0: "digit_char 0 = CHR ''0''"
  by code_simp

lemma is_digit_zero: "is_digit CHR ''0''"
  by (simp add: is_digit_def)

lemma is_digit_not_colon: "is_digit c \<Longrightarrow> c \<noteq> CHR '':''"
  by (auto simp: is_digit_def)

lemma String_num_digits: "list_all is_digit (String_num n)"
proof (induction n rule: String_num.induct)
  case (1 n)
  then show ?case
    by (subst String_num.simps) (simp add: digit_char_props)
qed

lemma String_num_value: "foldl (\<lambda>a c. 10 * a + digit_val c) 0 (String_num n) = n"
proof (induction n rule: String_num.induct)
  case (1 n)
  show ?case
  proof (cases "n < 10")
    case True
    then show ?thesis by (subst String_num.simps) (simp add: digit_char_props)
  next
    case False
    then show ?thesis using 1 by (subst String_num.simps) (simp add: digit_char_props)
  qed
qed

lemma foldl_digits_zeros:
  "foldl (\<lambda>a c. 10 * a + digit_val c) 0 (replicate k CHR ''0'' @ s)
   = foldl (\<lambda>a c. 10 * a + digit_val c) 0 s"
  by (induction k) (simp_all add: digit_val_def)

lemma Number_padStart: "Number (padStart 2 CHR ''0'' (String_num n)) = Some n"
  using String_num_digits [of n]
  by (auto simp: Number_def padStart_def foldl_digits_zeros String_num_value
      list_all_iff is_digit_zero simp del: foldl_append)

lemma padStart_digits: "list_all is_digit (padStart 2 CHR ''0'' (String_num n))"
  using String_num_digits [of n] by (auto simp: padStart_def list_all_iff is_digit_zero)

lemma split_on_no_sep: "c \<notin> set s \<Longrightarrow> split_on c s = [s]"
  by (induction s) auto

lemma split_on_sep: "c \<notin> set a \<Longrightarrow> split_on c (a @ c # b) = a # split_on c b"
  by (induction a) auto

text \<open>Reading back a formatted time gives the minutes it was formatted from.\<close>

lemma minutesOf_formatHHMM: "minutesOf (formatHHMM h m) = Some (h * 60 + m)"
proof -
  let ?a = "padStart 2 CHR ''0'' (String_num h)" and ?b = "padStart 2 CHR ''0'' (String_num m)"
  have a: "CHR '':'' \<notin> set ?a" and b: "CHR '':'' \<notin> set ?b"
    using padStart_digits [of h] padStart_digits [of m] is_digit_not_colon
    by (auto simp: list_all_iff)
  have "split_on CHR '':'' (formatHHMM h m) = [?a, ?b]"
    using split_on_sep [OF a, of ?b] split_on_no_sep [OF b] by (simp add: formatHHMM_def)
  then show ?thesis by (simp add: minutesOf_def Number_padStart)
qed

lemma minutesOf_formatHHMM_div: "minutesOf (formatHHMM (n div 60) (n mod 60)) = Some n"
  by (simp add: minutesOf_formatHHMM)

lemma two_digits:
  assumes "is_digit a" "is_digit b"
  shows "padStart 2 CHR ''0'' (String_num (10 * digit_val a + digit_val b)) = [a, b]"
proof (cases "digit_val a = 0")
  case True
  then have "a = CHR ''0''" using digit_char_val [OF assms(1)] digit_char_0 by metis
  then show ?thesis using True digit_char_val [OF assms(2)]
    by (subst String_num.simps) (simp add: padStart_def)
next
  case False
  have b: "digit_val b < 10" and a: "digit_val a < 10" using digit_char_val assms by auto
  have "String_num (10 * digit_val a + digit_val b)
        = String_num (digit_val a) @ [digit_char (digit_val b)]"
    using False b by (subst String_num.simps) simp
  also have "String_num (digit_val a) = [digit_char (digit_val a)]"
    using a by (subst String_num.simps) simp
  finally show ?thesis using digit_char_val assms by (simp add: padStart_def)
qed

lemma isHHMM_cases:
  assumes "isHHMM t"
  obtains a b d e where "t = [a, b, CHR '':'', d, e]"
    "is_digit a" "is_digit b" "is_digit d" "is_digit e"
    "10 * digit_val a + digit_val b < 24" "10 * digit_val d + digit_val e < 60"
  using assms by (auto simp: isHHMM_def split: list.splits)

lemma split_HHMM:
  "is_digit a \<Longrightarrow> is_digit b \<Longrightarrow> is_digit d \<Longrightarrow> is_digit e \<Longrightarrow>
   split_on CHR '':'' [a, b, CHR '':'', d, e] = [[a, b], [d, e]]"
  by (auto dest: is_digit_not_colon)

lemma Number_two:
  "is_digit a \<Longrightarrow> is_digit b \<Longrightarrow> Number [a, b] = Some (10 * digit_val a + digit_val b)"
  by (simp add: Number_def)

lemma div_mod_60: "m < 60 \<Longrightarrow> (h * 60 + m) div 60 = h \<and> (h * 60 + m) mod 60 = (m::nat)"
  by simp

lemma day_bound: "h < 24 \<Longrightarrow> m < 60 \<Longrightarrow> h * 60 + m < (1440::nat)"
  by arith

lemma minutesOf_HHMM:
  assumes dg: "is_digit a" "is_digit b" "is_digit d" "is_digit e"
  shows "minutesOf [a, b, CHR '':'', d, e]
         = Some ((10 * digit_val a + digit_val b) * 60 + (10 * digit_val d + digit_val e))"
  unfolding minutesOf_def split_HHMM [OF dg] using dg by (simp add: Number_two)

lemma formatHHMM_HHMM:
  assumes dg: "is_digit a" "is_digit b" "is_digit d" "is_digit e"
  shows "formatHHMM (10 * digit_val a + digit_val b) (10 * digit_val d + digit_val e)
         = [a, b, CHR '':'', d, e]"
  unfolding formatHHMM_def two_digits [OF dg(1,2)] two_digits [OF dg(3,4)] by simp

text \<open>A time value reads as a minute of the day and is printed back unchanged.\<close>

lemma isHHMM_minutesOf:
  assumes "isHHMM t"
  shows "\<exists>n. minutesOf t = Some n \<and> n < 1440 \<and> formatHHMM (n div 60) (n mod 60) = t"
proof -
  from assms obtain a b d e where t: "t = [a, b, CHR '':'', d, e]"
    and dg: "is_digit a" "is_digit b" "is_digit d" "is_digit e"
    and h: "10 * digit_val a + digit_val b < 24" and m: "10 * digit_val d + digit_val e < 60"
    by (rule isHHMM_cases)
  define hh where "hh = 10 * digit_val a + digit_val b"
  define mm where "mm = 10 * digit_val d + digit_val e"
  have mo: "minutesOf t = Some (hh * 60 + mm)"
    unfolding t hh_def mm_def by (rule minutesOf_HHMM [OF dg])
  have fm: "formatHHMM hh mm = t"
    unfolding t hh_def mm_def by (rule formatHHMM_HHMM [OF dg])
  have dm: "(hh * 60 + mm) div 60 = hh" "(hh * 60 + mm) mod 60 = mm"
    using div_mod_60 [of mm hh] m by (simp_all add: mm_def)
  have "hh * 60 + mm < 1440" using day_bound h m by (simp add: hh_def mm_def)
  then show ?thesis using mo fm dm by simp
qed

text \<open>Normalizing a time value appends the seconds, and the first five characters give it back.\<close>

lemma isHHMM_normalizeTime:
  assumes "isHHMM t"
  shows "normalizeTime t = t @ '':00''"
proof -
  from assms obtain a b d e where t: "t = [a, b, CHR '':'', d, e]"
    and dg: "is_digit a" "is_digit b" "is_digit d" "is_digit e"
    by (rule isHHMM_cases)
  show ?thesis using dg
    by (simp add: normalizeTime_def t split_HHMM part_or_00_def padStart_def Let_def
        del: split_on.simps)
qed

lemma isHHMM_length: "isHHMM t \<Longrightarrow> length t = 5"
  by (erule isHHMM_cases) simp

section \<open>The slot generator returns evenly spaced starts\<close>

lemma loop_count_0:
  assumes "0 < d" and "(to - cur) div d = 0"
  shows "\<not> cur + d \<le> (to::nat)"
proof -
  have "to - cur < d" using assms by (simp add: div_eq_0_iff)
  then show ?thesis using assms(1) by linarith
qed
lemma loop_count_Suc:
  assumes d: "0 < d" and s: "(to - cur) div d = Suc n"
  shows "cur + d \<le> (to::nat) \<and> (to - (cur + d)) div d = n"
proof -
  have "\<not> to - cur < d"
  proof
    assume "to - cur < d"
    then have "(to - cur) div d = 0" by (rule div_less)
    with s show False by simp
  qed
  then have le: "cur + d \<le> to" using d by linarith
  then obtain k where k: "to = cur + d + k" using le_iff_add by blast
  have a: "to - cur = d + k" and b: "to - (cur + d) = k" using k by simp_all
  have c: "(d + k) div d = Suc (k div d)" using d div_add_self1 [of d k] by simp
  have "k div d = n" using s unfolding a c by simp
  then show ?thesis using le unfolding b by simp
qed

text \<open>
  With a positive duration the loop returns: it appends one start for each whole duration
  that fits between the current minute and the end.
\<close>

lemma generateLoop_eq:
  assumes "0 < d"
  shows "generateLoop cur d to acc =
         Some (acc @ map (\<lambda>i. formatHHMM ((cur + i * d) div 60) ((cur + i * d) mod 60))
                       [0..<(to - cur) div d])"
proof (induction "(to - cur) div d" arbitrary: cur acc)
  case 0
  then have "\<not> cur + d \<le> to" using assms loop_count_0 by simp
  then show ?case using 0 by (subst generateLoop.simps) simp
next
  case (Suc n)
  from loop_count_Suc [OF assms Suc(2) [symmetric]]
  have le: "cur + d \<le> to" and n: "n = (to - (cur + d)) div d" by simp_all
  have shift: "map (\<lambda>i. formatHHMM ((cur + i * d) div 60) ((cur + i * d) mod 60)) [0..<Suc n]
      = formatHHMM (cur div 60) (cur mod 60)
        # map (\<lambda>i. formatHHMM ((cur + d + i * d) div 60) ((cur + d + i * d) mod 60)) [0..<n]"
    by (simp add: upt_conv_Cons map_Suc_upt [symmetric] add.assoc del: upt_Suc)
  have "generateLoop cur d to acc
        = generateLoop (cur + d) d to (acc @ [formatHHMM (cur div 60) (cur mod 60)])"
    using le by (subst generateLoop.simps) simp
  also have "\<dots> = Some ((acc @ [formatHHMM (cur div 60) (cur mod 60)])
        @ map (\<lambda>i. formatHHMM ((cur + d + i * d) div 60) ((cur + d + i * d) mod 60)) [0..<n])"
    using Suc(1) [OF n] n by simp
  also have "\<dots> = Some (acc @ map (\<lambda>i. formatHHMM ((cur + i * d) div 60) ((cur + i * d) mod 60)) [0..<Suc n])"
    by (simp only: shift) simp
  finally show ?case by (simp only: Suc(2))
qed

text \<open>
  C1. For times that read as minutes \<open>fromMinutes < toMinutes\<close> and a positive duration the
  generator returns, and it returns exactly \<open>(toMinutes - fromMinutes) div duration\<close> starts;
  the start at position \<open>i\<close> is \<open>fromMinutes + i * duration\<close>, so consecutive starts differ by
  the duration; when there is a start, the first one is \<open>fromMinutes\<close> (and is the string
  \<open>fromTime\<close> itself when that is a time value \<open>HH:MM\<close>) and the last one plus the duration
  does not exceed \<open>toMinutes\<close>; a window shorter than one duration gives the empty list, as a
  normal result.
\<close>

theorem generateTimeSlots_count_spacing:
  assumes f: "minutesOf fromTime = Some fromMinutes"
    and t: "minutesOf toTime = Some toMinutes"
    and lt: "fromMinutes < toMinutes"
    and d: "0 < duration"
  shows "\<exists>starts. generateTimeSlots fromTime toTime duration = Some starts
      \<and> length starts = (toMinutes - fromMinutes) div duration
      \<and> (\<forall>i < length starts. minutesOf (starts ! i) = Some (fromMinutes + i * duration))
      \<and> (starts \<noteq> [] \<longrightarrow>
            minutesOf (hd starts) = Some fromMinutes
          \<and> (isHHMM fromTime \<longrightarrow> hd starts = fromTime)
          \<and> (\<exists>l. minutesOf (last starts) = Some l \<and> l + duration \<le> toMinutes))
      \<and> (toMinutes - fromMinutes < duration \<longrightarrow> starts = [])"
proof -
  let ?n = "(toMinutes - fromMinutes) div duration"
  let ?g = "\<lambda>i. formatHHMM ((fromMinutes + i * duration) div 60) ((fromMinutes + i * duration) mod 60)"
  let ?starts = "map ?g [0..<?n]"
  have run: "generateTimeSlots fromTime toTime duration = Some ?starts"
    using generateLoop_eq [OF d, of fromMinutes toMinutes "[]"]
    by (simp add: generateTimeSlots_def f t)
  have len: "length ?starts = ?n" by simp
  have idx: "\<forall>i < length ?starts. minutesOf (?starts ! i) = Some (fromMinutes + i * duration)"
    by (simp add: minutesOf_formatHHMM)
  have bound: "?n * duration \<le> toMinutes - fromMinutes" by simp
  have first: "?starts \<noteq> [] \<longrightarrow> minutesOf (hd ?starts) = Some fromMinutes
      \<and> (isHHMM fromTime \<longrightarrow> hd ?starts = fromTime)
      \<and> (\<exists>l. minutesOf (last ?starts) = Some l \<and> l + duration \<le> toMinutes)"
  proof
    assume ne: "?starts \<noteq> []"
    then have pos: "0 < ?n" by simp
    have h: "hd ?starts = formatHHMM (fromMinutes div 60) (fromMinutes mod 60)"
      using pos by (simp add: hd_map upt_conv_Cons del: upt_Suc)
    have h1: "minutesOf (hd ?starts) = Some fromMinutes" by (simp add: h minutesOf_formatHHMM)
    have h2: "isHHMM fromTime \<longrightarrow> hd ?starts = fromTime"
      using isHHMM_minutesOf [of fromTime] f h by auto
    have l: "last ?starts = ?g (?n - 1)"
      using pos by (simp add: last_map last_upt)
    have "fromMinutes + (?n - 1) * duration + duration = fromMinutes + ?n * duration"
      using pos by (metis Suc_pred' add.assoc mult_Suc add.commute)
    also have "\<dots> \<le> toMinutes" using bound lt by arith
    finally have h3: "\<exists>l. minutesOf (last ?starts) = Some l \<and> l + duration \<le> toMinutes"
      by (simp only: l minutesOf_formatHHMM_div) simp
    show "minutesOf (hd ?starts) = Some fromMinutes
      \<and> (isHHMM fromTime \<longrightarrow> hd ?starts = fromTime)
      \<and> (\<exists>l. minutesOf (last ?starts) = Some l \<and> l + duration \<le> toMinutes)"
      using h1 h2 h3 by blast
  qed
  have short: "toMinutes - fromMinutes < duration \<longrightarrow> ?starts = []" by simp
  show ?thesis using run len idx first short by blast
qed

theorem generateTimeSlots_count_spacing_witness:
  "minutesOf ''09:00'' = Some 540 \<and> minutesOf ''10:00'' = Some 600 \<and> isHHMM ''09:00''
   \<and> (\<exists>starts. generateTimeSlots ''09:00'' ''10:00'' 30 = Some starts
         \<and> length starts = 2 \<and> hd starts = ''09:00''
         \<and> minutesOf (starts ! 1) = Some 570
         \<and> (\<exists>l. minutesOf (last starts) = Some l \<and> l + 30 \<le> 600))
   \<and> minutesOf ''09:20'' = Some 560
   \<and> generateTimeSlots ''09:00'' ''09:20'' 30 = Some []"
proof -
  have a: "minutesOf ''09:00'' = Some 540" "minutesOf ''10:00'' = Some 600"
    "minutesOf ''09:20'' = Some 560"
    by code_simp+
  have hh: "isHHMM ''09:00''" by code_simp
  have long: "\<exists>starts. generateTimeSlots ''09:00'' ''10:00'' 30 = Some starts
         \<and> length starts = 2 \<and> hd starts = ''09:00''
         \<and> minutesOf (starts ! 1) = Some 570
         \<and> (\<exists>l. minutesOf (last starts) = Some l \<and> l + 30 \<le> 600)"
    using generateTimeSlots_count_spacing [OF a(1) a(2), of 30] hh by fastforce
  have short: "generateTimeSlots ''09:00'' ''09:20'' 30 = Some []"
    using generateTimeSlots_count_spacing [OF a(1) a(3), of 30] by auto
  show ?thesis using a hh long short by blast
qed

section \<open>Requests, the working-day object and loading\<close>

lemma serve_client:
  "trace (serve r s) = trace s" "weekSchedule (serve r s) = weekSchedule s"
  "barberId (serve r s) = barberId s" "pageIndex (serve r s) = pageIndex s"
  by (cases r; simp)+

lemma call_client:
  "trace (snd (call e r s)) = trace s @ [Request r]"
  "weekSchedule (snd (call e r s)) = weekSchedule s"
  "barberId (snd (call e r s)) = barberId s"
  "pageIndex (snd (call e r s)) = pageIndex s"
  by (simp_all add: call_def emit_def serve_client)

lemma call_fst: "fst (call e r s) = env_accepts e r"
  by (simp add: call_def)

lemma call_refused: "\<not> env_accepts e r \<Longrightarrow> call e r s = (False, emit (Request r) s)"
  by (simp add: call_def)

lemma call_accepted: "env_accepts e r \<Longrightarrow> call e r s = (True, serve r (emit (Request r) s))"
  by (simp add: call_def)

lemma call_read:
  "call e (KvGet k) s = (env_accepts e (KvGet k), emit (Request (KvGet k)) s)"
  "call e (ListSlots b f t) s = (env_accepts e (ListSlots b f t), emit (Request (ListSlots b f t)) s)"
  by (simp_all add: call_def)

lemma call_LatestSlot:
  "call e (LatestSlot bo d) s = (env_accepts e (LatestSlot bo d), emit (Request (LatestSlot bo d)) s)"
  by (simp add: call_def)

lemma readWorkingDays_snd:
  "snd (readWorkingDays e s) = emit (Request (KvGet (workingDaysKey (barberId s)))) s"
  by (simp add: readWorkingDays_def call_read Let_def emit_def split: option.splits bool.splits)

lemma readWorkingDays_fst:
  "fst (readWorkingDays e s) =
     (if env_accepts e (KvGet (workingDaysKey (barberId s)))
      then (case map_of (kv s) (workingDaysKey (barberId s)) of Some v \<Rightarrow> v | None \<Rightarrow> [])
      else [])"
  by (simp add: readWorkingDays_def call_read Let_def emit_def split: option.splits bool.splits)

lemma readWorkingDays_eq:
  "readWorkingDays e s = (fst (readWorkingDays e s), emit (Request (KvGet (workingDaysKey (barberId s)))) s)"
  using readWorkingDays_snd [of e s] by (metis prod.collapse)

lemma emit_fields:
  "barber_slots (emit ev s) = barber_slots s" "kv (emit ev s) = kv s" "next_id (emit ev s) = next_id s"
  "weekSchedule (emit ev s) = weekSchedule s" "barberId (emit ev s) = barberId s"
  "pageIndex (emit ev s) = pageIndex s" "trace (emit ev s) = trace s @ [ev]"
  by (simp_all add: emit_def)

lemma updateWorkingDayState_no_token:
  "env_sessionToken e = None \<Longrightarrow> updateWorkingDayState e d w s = s"
  by (simp add: updateWorkingDayState_def)

lemma updateWorkingDayState_token:
  assumes "env_sessionToken e = Some tok"
  shows "updateWorkingDayState e d w s =
     snd (call e (KvPut (workingDaysKey (barberId s))
                   (if w then AList.update d (JBool True) (fst (readWorkingDays e s))
                    else AList.delete d (fst (readWorkingDays e s))))
            (emit (Request (KvGet (workingDaysKey (barberId s)))) s))"
  using assms
  by (simp add: updateWorkingDayState_def Let_def case_prod_beta readWorkingDays_snd)

lemma updateWorkingDayState_fields:
  "barber_slots (updateWorkingDayState e d w s) = barber_slots s"
  "next_id (updateWorkingDayState e d w s) = next_id s"
  "weekSchedule (updateWorkingDayState e d w s) = weekSchedule s"
  "barberId (updateWorkingDayState e d w s) = barberId s"
  "pageIndex (updateWorkingDayState e d w s) = pageIndex s"
  by (cases "env_sessionToken e";
      simp add: updateWorkingDayState_no_token updateWorkingDayState_token call_def emit_def)+

lemma updateWorkingDayState_flag:
  assumes tok: "env_sessionToken e = Some tok" and acc: "\<And>r. env_accepts e r"
  shows "storedFlag (updateWorkingDayState e d w s) d' =
         (if d' = d then (if w then Some (JBool True) else None) else storedFlag s d')"
  using acc
  by (simp add: updateWorkingDayState_token [OF tok] call_def emit_def storedFlag_def
      readWorkingDays_fst update_conv' delete_conv' split: option.splits)

lemma placeSlots_length: "length (placeSlots e ws data sched) = length sched"
  by (induction data arbitrary: sched) (simp_all add: Let_def)

lemma placeSlots_nth:
  assumes "length sched = DAYS_PER_PAGE" and "i < DAYS_PER_PAGE"
  shows "placeSlots e ws data sched ! i =
         (sched ! i)\<lparr>slots := slots (sched ! i)
                        @ map toTimeSlot (filter (\<lambda>r. daysDiff e ws (slot_date r) = int i) data)\<rparr>"
  using assms
proof (induction data arbitrary: sched)
  case Nil
  then show ?case by simp
next
  case (Cons r data)
  let ?diff = "daysDiff e ws (slot_date r)"
  show ?case
  proof (cases "?diff \<ge> 0 \<and> ?diff < int DAYS_PER_PAGE")
    case True
    let ?k = "nat ?diff"
    let ?sched = "sched[?k := (sched ! ?k)\<lparr>slots := slots (sched ! ?k) @ [toTimeSlot r]\<rparr>]"
    have k: "?k < length sched" using True Cons.prems by linarith
    have step: "placeSlots e ws (r # data) sched = placeSlots e ws data ?sched"
      by (simp only: placeSlots.simps Let_def True simp_thms if_True)
    have len: "length ?sched = DAYS_PER_PAGE" using Cons.prems by simp
    have ih: "placeSlots e ws data ?sched ! i =
         (?sched ! i)\<lparr>slots := slots (?sched ! i)
                        @ map toTimeSlot (filter (\<lambda>r. daysDiff e ws (slot_date r) = int i) data)\<rparr>"
      by (rule Cons.IH [OF len Cons.prems(2)])
    show ?thesis
    proof (cases "i = ?k")
      case True
      then have d: "?diff = int i" using \<open>?diff \<ge> 0 \<and> _\<close> by simp
      have "?sched ! i = (sched ! i)\<lparr>slots := slots (sched ! i) @ [toTimeSlot r]\<rparr>"
        using k True by simp
      then show ?thesis unfolding step ih using d by simp
    next
      case False
      then have d: "?diff \<noteq> int i" by auto
      have "?sched ! i = sched ! i" using False by simp
      then show ?thesis unfolding step ih using d by simp
    qed
  next
    case False
    then have ne: "?diff \<noteq> int i" using Cons.prems(2) by auto
    have step: "placeSlots e ws (r # data) sched = placeSlots e ws data sched"
      by (simp only: placeSlots.simps Let_def False if_False)
    show ?thesis unfolding step Cons.IH [OF Cons.prems] using ne by simp
  qed
qed

lemma loadSlots_no_barber: "barberId s = None \<Longrightarrow> loadSlots e s = s"
  by (simp add: loadSlots_def)

lemma loadSlots_no_token:
  "barberId s = Some b \<Longrightarrow> env_sessionToken e = None \<Longrightarrow> loadSlots e s = emit ToastError s"
  by (simp add: loadSlots_def)

lemma loadSlots_refused:
  assumes "barberId s = Some b" and "env_sessionToken e = Some tok"
    and "\<not> env_accepts e (ListSlots tok (getPageStartDate e (pageIndex s))
                            (getPageStartDate e (pageIndex s) + (int DAYS_PER_PAGE - 1)))"
  shows "loadSlots e s =
         emit ToastError (emit (Request (ListSlots tok (getPageStartDate e (pageIndex s))
                            (getPageStartDate e (pageIndex s) + (int DAYS_PER_PAGE - 1)))) s)"
  using assms by (simp add: loadSlots_def Let_def call_read)

lemma loadSlots_accepted:
  assumes "barberId s = Some b" and "env_sessionToken e = Some tok"
    and "env_accepts e (ListSlots tok (getPageStartDate e (pageIndex s))
                            (getPageStartDate e (pageIndex s) + (int DAYS_PER_PAGE - 1)))"
  shows "loadSlots e s =
         (emit (Request (KvGet (workingDaysKey (barberId s))))
            (emit (Request (ListSlots tok (getPageStartDate e (pageIndex s))
                            (getPageStartDate e (pageIndex s) + (int DAYS_PER_PAGE - 1)))) s))
         \<lparr>weekSchedule :=
            buildSchedule e (pageIndex s) (fst (readWorkingDays e s))
              (listByDateRange (barber_slots s) tok (getPageStartDate e (pageIndex s))
                 (getPageStartDate e (pageIndex s) + (int DAYS_PER_PAGE - 1)))\<rparr>"
  using assms
  by (simp add: loadSlots_def Let_def call_read case_prod_beta readWorkingDays_snd
      readWorkingDays_fst emit_fields)

lemma buildSchedule_length: "length (buildSchedule e p wd data) = DAYS_PER_PAGE"
  by (simp add: buildSchedule_def Let_def placeSlots_length)

lemma sort_key_Nil_iff: "sort_key f xs = [] \<longleftrightarrow> xs = []"
  by (metis length_sort list.size(3) length_0_conv)

lemma buildSchedule_nth:
  assumes "i < DAYS_PER_PAGE"
  shows "buildSchedule e p wd data ! i =
         \<lparr>day = [], date = getActualDate e i p,
          isOff = (map_of wd (getActualDate e i p) \<noteq> Some (JBool True)),
          slots = sort_key sortKey
                    (map toTimeSlot
                       (filter (\<lambda>r. daysDiff e (getPageStartDate e p) (slot_date r) = int i) data))\<rparr>"
proof -
  let ?new = "map (emptyDay e p wd) [0..<DAYS_PER_PAGE]"
  have len: "length ?new = DAYS_PER_PAGE" by simp
  have new: "?new ! i = emptyDay e p wd i" using assms by simp
  show ?thesis
  proof (cases "data = []")
    case True
    then show ?thesis using new by (simp add: buildSchedule_def Let_def emptyDay_def)
  next
    case False
    have "buildSchedule e p wd data ! i = sortDay (placeSlots e (getPageStartDate e p) data ?new ! i)"
      using False assms by (simp add: buildSchedule_def Let_def placeSlots_length)
    also have "\<dots> = sortDay ((?new ! i)\<lparr>slots := slots (?new ! i)
          @ map toTimeSlot
              (filter (\<lambda>r. daysDiff e (getPageStartDate e p) (slot_date r) = int i) data)\<rparr>)"
      by (simp only: placeSlots_nth [OF len assms])
    finally show ?thesis
      by (simp add: new emptyDay_def sortDay_def Let_def)
  qed
qed

lemma loadSlots_accepted_nth:
  assumes b: "barberId s = Some b" and tok: "env_sessionToken e = Some tok"
    and acc: "env_accepts e (ListSlots tok (getPageStartDate e (pageIndex s))
                            (getPageStartDate e (pageIndex s) + (int DAYS_PER_PAGE - 1)))"
    and i: "i < DAYS_PER_PAGE"
  shows "weekSchedule (loadSlots e s) ! i =
         \<lparr>day = [], date = getActualDate e i (pageIndex s),
          isOff = (map_of (fst (readWorkingDays e s)) (getActualDate e i (pageIndex s)) \<noteq> Some (JBool True)),
          slots = sort_key sortKey
                    (map toTimeSlot
                       (filter (\<lambda>r. daysDiff e (getPageStartDate e (pageIndex s)) (slot_date r) = int i)
                          (listByDateRange (barber_slots s) tok (getPageStartDate e (pageIndex s))
                             (getPageStartDate e (pageIndex s) + (int DAYS_PER_PAGE - 1)))))\<rparr>"
  by (simp add: loadSlots_accepted [OF b tok acc] buildSchedule_nth [OF i])

text \<open>On a page whose days have 24 hours the day index of a date is its distance from the page start.\<close>

lemma daysDiff_24:
  assumes h: "daysOf24Hours e ws" and lo: "ws \<le> d" and hi: "d \<le> ws + (int DAYS_PER_PAGE - 1)"
  shows "daysDiff e ws d = d - ws"
proof -
  define k where "k = nat (d - ws)"
  have k: "k < DAYS_PER_PAGE" and d: "d = ws + int k" using lo hi by (simp_all add: k_def)
  from h k have "env_midnight e (ws + int k) - env_midnight e ws = int k * (1000 * 60 * 60 * 24)"
    by (simp add: daysOf24Hours_def list_all_iff)
  then have "daysDiff e ws d = (int k * 86400000) div 86400000"
    unfolding daysDiff_def d by simp
  also have "\<dots> = int k" by simp
  finally show ?thesis using d by simp
qed

lemma loadSlots_accepted_nth_24:
  assumes b: "barberId s = Some b" and tok: "env_sessionToken e = Some tok"
    and acc: "env_accepts e (ListSlots tok (getPageStartDate e (pageIndex s))
                            (getPageStartDate e (pageIndex s) + (int DAYS_PER_PAGE - 1)))"
    and i: "i < DAYS_PER_PAGE"
    and h: "daysOf24Hours e (getPageStartDate e (pageIndex s))"
  shows "slots (weekSchedule (loadSlots e s) ! i) =
         sort_key sortKey
           (map toTimeSlot
              (filter (\<lambda>r. barber_id r = tok \<and> slot_date r = getActualDate e i (pageIndex s))
                 (barber_slots s)))"
proof -
  let ?ps = "getPageStartDate e (pageIndex s)"
  have in_page: "?ps \<le> getActualDate e i (pageIndex s)"
    "getActualDate e i (pageIndex s) \<le> ?ps + (int DAYS_PER_PAGE - 1)"
    using i by (simp_all add: getActualDate_def)
  have col: "\<And>r. inRange tok ?ps (?ps + (int DAYS_PER_PAGE - 1)) r \<Longrightarrow>
               (daysDiff e ?ps (slot_date r) = int i) = (slot_date r = getActualDate e i (pageIndex s))"
  proof -
    fix r assume r: "inRange tok ?ps (?ps + (int DAYS_PER_PAGE - 1)) r"
    then have "daysDiff e ?ps (slot_date r) = slot_date r - ?ps"
      by (intro daysDiff_24 [OF h]) (simp_all add: inRange_def)
    then show "(daysDiff e ?ps (slot_date r) = int i) = (slot_date r = getActualDate e i (pageIndex s))"
      by (auto simp: getActualDate_def)
  qed
  have flt: "filter (\<lambda>r. daysDiff e ?ps (slot_date r) = int i)
               (listByDateRange (barber_slots s) tok ?ps (?ps + (int DAYS_PER_PAGE - 1)))
             = filter (\<lambda>r. barber_id r = tok \<and> slot_date r = getActualDate e i (pageIndex s))
                 (barber_slots s)"
    unfolding listByDateRange_def filter_filter
  proof (rule filter_cong [OF refl])
    fix r
    show "(inRange tok ?ps (?ps + (int DAYS_PER_PAGE - 1)) r \<and> daysDiff e ?ps (slot_date r) = int i)
          = (barber_id r = tok \<and> slot_date r = getActualDate e i (pageIndex s))"
      using col [of r] in_page by (auto simp: inRange_def)
  qed
  show ?thesis
    by (simp add: loadSlots_accepted_nth [OF b tok acc i] flt)
qed

lemma loadSlots_accepted_length:
  assumes b: "barberId s = Some b" and tok: "env_sessionToken e = Some tok"
    and acc: "env_accepts e (ListSlots tok (getPageStartDate e (pageIndex s))
                            (getPageStartDate e (pageIndex s) + (int DAYS_PER_PAGE - 1)))"
  shows "length (weekSchedule (loadSlots e s)) = DAYS_PER_PAGE"
  by (simp add: loadSlots_accepted [OF b tok acc] buildSchedule_length)

lemma readWorkingDays_storedFlag:
  "env_accepts e (KvGet (workingDaysKey (barberId s))) \<Longrightarrow>
   map_of (fst (readWorkingDays e s)) d = storedFlag s d"
  by (simp add: readWorkingDays_fst storedFlag_def split: option.splits)


lemma exampleEnv_accepts: "env_accepts exampleEnv r"
  by (simp add: exampleEnv_def)

text \<open>
  C10. After a load that the store answers, a day of the page is shown as working exactly
  when the working-day object binds its date to \<open>true\<close>: a date the object does not bind is
  off, whatever slots the store holds for it, and turning a day off deletes its key.
\<close>

theorem working_day_only_when_true:
  assumes b: "barberId s = Some b" and tok: "env_sessionToken e = Some tok"
    and acc: "\<And>r. env_accepts e r"
    and i: "i < DAYS_PER_PAGE"
  shows "isOff (weekSchedule (loadSlots e s) ! i)
           = (storedFlag s (getActualDate e i (pageIndex s)) \<noteq> Some (JBool True))
       \<and> (storedFlag s (getActualDate e i (pageIndex s)) = None
            \<longrightarrow> isOff (weekSchedule (loadSlots e s) ! i))
       \<and> isOff (weekSchedule (loadSlots e (s\<lparr>barber_slots := rows\<rparr>)) ! i)
           = isOff (weekSchedule (loadSlots e s) ! i)
       \<and> storedFlag (updateWorkingDayState e d False s) d = None"
proof -
  have off: "\<And>s'. barberId s' = Some b \<Longrightarrow>
      isOff (weekSchedule (loadSlots e s') ! i)
      = (storedFlag s' (getActualDate e i (pageIndex s')) \<noteq> Some (JBool True))"
    using loadSlots_accepted_nth [OF _ tok acc i] readWorkingDays_storedFlag [OF acc]
    by simp
  have same: "storedFlag (s\<lparr>barber_slots := rows\<rparr>) = storedFlag s"
    by (simp add: storedFlag_def fun_eq_iff)
  have del: "storedFlag (updateWorkingDayState e d False s) d = None"
    using updateWorkingDayState_flag [OF tok acc, of d False s d] by simp
  show ?thesis using off [of s] off [of "s\<lparr>barber_slots := rows\<rparr>"] b same del by simp
qed

theorem working_day_only_when_true_witness:
  "barberId (exampleWorld [exampleRow ''a'' 100 ''09:00:00'' False]) = Some ''b1''
   \<and> env_sessionToken exampleEnv = Some ''b1'' \<and> (0::nat) < DAYS_PER_PAGE
   \<and> storedFlag (exampleWorld [exampleRow ''a'' 100 ''09:00:00'' False])
        (getActualDate exampleEnv 0 (pageIndex (exampleWorld [exampleRow ''a'' 100 ''09:00:00'' False]))) = None
   \<and> isOff (weekSchedule (loadSlots exampleEnv (exampleWorld [exampleRow ''a'' 100 ''09:00:00'' False])) ! 0)"
proof -
  let ?s = "exampleWorld [exampleRow ''a'' 100 ''09:00:00'' False]"
  have b: "barberId ?s = Some ''b1''" by (simp add: exampleWorld_def)
  have tok: "env_sessionToken exampleEnv = Some ''b1''" by (simp add: exampleEnv_def)
  have i: "(0::nat) < DAYS_PER_PAGE" by (simp add: DAYS_PER_PAGE_def)
  have none: "storedFlag ?s (getActualDate exampleEnv 0 (pageIndex ?s)) = None"
    by (simp add: storedFlag_def exampleWorld_def)
  show ?thesis
    using working_day_only_when_true [OF b tok exampleEnv_accepts i] b tok i none by blast
qed

section \<open>Quick setup asks for confirmation by the displayed page\<close>

lemma hasExistingSlots_iff:
  "hasExistingSlots s = (\<exists>d \<in> set (weekSchedule s). slots d \<noteq> [])"
  by (simp add: hasExistingSlots_def list_ex_iff)

lemma validate_fields:
  assumes "validateQuickSetup s = (ok, s1)"
  shows "weekSchedule s1 = weekSchedule s" "trace s1 = trace s" "barber_slots s1 = barber_slots s"
    "kv s1 = kv s" "showQuickSetupConfirmModal s1 = showQuickSetupConfirmModal s"
  using assms by (auto simp: validateQuickSetup_def Let_def split: if_splits)


text \<open>
  C3 (as amended). With valid inputs, quick setup asks for confirmation, before any request
  is sent, exactly when some day of the schedule the component holds (the displayed page of
  eight days) has a slot; when none has, it executes at once.
\<close>

theorem quick_setup_confirmation_by_page:
  assumes valid: "validateQuickSetup s = (True, s1)"
  shows "((\<exists>d \<in> set (weekSchedule s). slots d \<noteq> []) \<longrightarrow>
            handleQuickSetup e s = Some (s1\<lparr>showQuickSetupConfirmModal := True\<rparr>)
          \<and> trace s1 = trace s \<and> barber_slots s1 = barber_slots s \<and> kv s1 = kv s)
       \<and> (\<not> (\<exists>d \<in> set (weekSchedule s). slots d \<noteq> []) \<longrightarrow>
            handleQuickSetup e s = executeQuickSetup e s1)"
  using validate_fields [OF valid]
  by (simp add: handleQuickSetup_def valid hasExistingSlots_iff)



theorem quick_setup_confirmation_by_page_witness:
  "validateQuickSetup (loadedExample [exampleRow ''c'' 107 ''09:00:00'' False] 0)
     = (True, loadedExample [exampleRow ''c'' 107 ''09:00:00'' False] 0)
   \<and> (\<exists>d \<in> set (weekSchedule (loadedExample [exampleRow ''c'' 107 ''09:00:00'' False] 0)). slots d \<noteq> [])
   \<and> handleQuickSetup exampleEnv (loadedExample [exampleRow ''c'' 107 ''09:00:00'' False] 0)
       = Some ((loadedExample [exampleRow ''c'' 107 ''09:00:00'' False] 0)\<lparr>showQuickSetupConfirmModal := True\<rparr>)
   \<and> validateQuickSetup (loadedExample [] 0) = (True, loadedExample [] 0)
   \<and> \<not> (\<exists>d \<in> set (weekSchedule (loadedExample [] 0)). slots d \<noteq> [])
   \<and> handleQuickSetup exampleEnv (loadedExample [] 0) = executeQuickSetup exampleEnv (loadedExample [] 0)"
proof -
  let ?a = "loadedExample [exampleRow ''c'' 107 ''09:00:00'' False] 0"
  let ?b = "loadedExample [] 0"
  have va: "validateQuickSetup ?a = (True, ?a)" by code_simp
  have vb: "validateQuickSetup ?b = (True, ?b)" by code_simp
  have ea: "\<exists>d \<in> set (weekSchedule ?a). slots d \<noteq> []" by code_simp
  have eb: "\<not> (\<exists>d \<in> set (weekSchedule ?b). slots d \<noteq> [])" by code_simp
  have ha: "handleQuickSetup exampleEnv ?a = Some (?a\<lparr>showQuickSetupConfirmModal := True\<rparr>)"
    using quick_setup_confirmation_by_page [OF va, of exampleEnv] ea by simp
  have hb: "handleQuickSetup exampleEnv ?b = executeQuickSetup exampleEnv ?b"
    using quick_setup_confirmation_by_page [OF vb, of exampleEnv] eb by simp
  show ?thesis
    using va vb ea eb ha hb by (intro conjI)
qed

section \<open>Single slots\<close>

lemma loadSlots_store:
  "barber_slots (loadSlots e s) = barber_slots s" "kv (loadSlots e s) = kv s"
  "next_id (loadSlots e s) = next_id s" "barberId (loadSlots e s) = barberId s"
  "pageIndex (loadSlots e s) = pageIndex s"
  by (simp_all add: loadSlots_def Let_def call_read case_prod_beta readWorkingDays_snd emit_def
      split: option.splits bool.splits)

lemma refetches_emit: "refetches (emit ev s) = refetches s + (if isRefetch ev then 1 else 0)"
  by (simp add: refetches_def emit_def)

lemma refetches_call:
  "refetches (snd (call e r s)) = refetches s + (if isRefetch (Request r) then 1 else 0)"
  by (simp add: refetches_def call_client)

lemma refetches_trace_eq: "trace s' = trace s \<Longrightarrow> refetches s' = refetches s"
  by (simp add: refetches_def)

lemma updateWorkingDayState_trace:
  "trace (updateWorkingDayState e d w s) =
     (case env_sessionToken e of
        None \<Rightarrow> trace s
      | Some tok \<Rightarrow>
          trace s @ [Request (KvGet (workingDaysKey (barberId s))),
                     Request (KvPut (workingDaysKey (barberId s))
                       (if w then AList.update d (JBool True) (fst (readWorkingDays e s))
                        else AList.delete d (fst (readWorkingDays e s))))])"
  by (cases "env_sessionToken e")
     (simp_all add: updateWorkingDayState_no_token updateWorkingDayState_token call_client emit_def)

lemma refetches_updateWorkingDayState:
  "refetches (updateWorkingDayState e d w s) = refetches s"
  by (cases "env_sessionToken e")
     (simp_all add: refetches_def updateWorkingDayState_trace isRefetch_def)

lemma loadSlots_trace:
  assumes "barberId s = Some b" and "env_sessionToken e = Some tok"
  shows "trace (loadSlots e s) =
     trace s @ Request (ListSlots tok (getPageStartDate e (pageIndex s))
                          (getPageStartDate e (pageIndex s) + (int DAYS_PER_PAGE - 1)))
              # (if env_accepts e (ListSlots tok (getPageStartDate e (pageIndex s))
                          (getPageStartDate e (pageIndex s) + (int DAYS_PER_PAGE - 1)))
                 then [Request (KvGet (workingDaysKey (barberId s)))] else [ToastError])"
proof (cases "env_accepts e (ListSlots tok (getPageStartDate e (pageIndex s))
                          (getPageStartDate e (pageIndex s) + (int DAYS_PER_PAGE - 1)))")
  case True
  show ?thesis using True by (simp add: loadSlots_accepted [OF assms True] emit_def)
next
  case False
  show ?thesis using False by (simp add: loadSlots_refused [OF assms False] emit_def)
qed

lemma refetches_loadSlots:
  assumes "barberId s = Some b" and "env_sessionToken e = Some tok"
  shows "refetches (loadSlots e s) = refetches s + 1"
  by (simp add: refetches_def loadSlots_trace [OF assms] isRefetch_def)

lemma setDay_fields:
  "trace (setDay i f s) = trace s" "barber_slots (setDay i f s) = barber_slots s"
  "kv (setDay i f s) = kv s" "next_id (setDay i f s) = next_id s"
  "barberId (setDay i f s) = barberId s" "pageIndex (setDay i f s) = pageIndex s"
  by (simp_all add: setDay_def)

lemma setDay_length: "length (weekSchedule (setDay i f s)) = length (weekSchedule s)"
  by (simp add: setDay_def)

lemma setDay_nth:
  "j < length (weekSchedule s) \<Longrightarrow>
   weekSchedule (setDay i f s) ! j = (if j = i then f (weekSchedule s ! j) else weekSchedule s ! j)"
  by (simp add: setDay_def nth_enumerate_eq)

lemma serve_store_reads:
  "barber_slots (serve (DeleteSlot b i) s) = filter (\<lambda>r. \<not> (row_id r = i \<and> barber_id r = b)) (barber_slots s)"
  "kv (serve (DeleteSlot b i) s) = kv s"
  by simp_all

lemma removeTimeSlot_cases:
  assumes tok: "env_sessionToken e = Some tok"
  shows "removeTimeSlot e dayIndex slotId s =
     (if env_accepts e (DeleteSlot tok slotId)
      then loadSlots e
             (emit ToastSuccess
                (setDay dayIndex
                   (\<lambda>d. d\<lparr>slots := filter (\<lambda>slot. id' slot \<noteq> slotId) (slots d)\<rparr>)
                   (serve (DeleteSlot tok slotId) (emit (Request (DeleteSlot tok slotId)) s))))
      else emit ToastError (emit (Request (DeleteSlot tok slotId)) s))"
  by (simp add: removeTimeSlot_def tok call_def)

lemma removeTimeSlot_store:
  assumes tok: "env_sessionToken e = Some tok"
  shows "barber_slots (removeTimeSlot e dayIndex slotId s) =
     (if env_accepts e (DeleteSlot tok slotId)
      then filter (\<lambda>r. \<not> (row_id r = slotId \<and> barber_id r = tok)) (barber_slots s)
      else barber_slots s)"
  by (simp add: removeTimeSlot_cases [OF tok] loadSlots_store emit_fields setDay_fields)

lemma removeTimeSlot_refetches:
  assumes b: "barberId s = Some b" and tok: "env_sessionToken e = Some tok"
  shows "refetches (removeTimeSlot e dayIndex slotId s) =
         refetches s + (if env_accepts e (DeleteSlot tok slotId) then 1 else 0)"
proof (cases "env_accepts e (DeleteSlot tok slotId)")
  case True
  let ?s1 = "emit ToastSuccess
                (setDay dayIndex
                   (\<lambda>d. d\<lparr>slots := filter (\<lambda>slot. id' slot \<noteq> slotId) (slots d)\<rparr>)
                   (serve (DeleteSlot tok slotId) (emit (Request (DeleteSlot tok slotId)) s)))"
  have b1: "barberId ?s1 = Some b" using b by (simp add: emit_fields setDay_fields serve_client)
  have "refetches ?s1 = refetches s"
    by (simp add: refetches_def emit_fields setDay_fields serve_client isRefetch_def)
  then show ?thesis
    using True refetches_loadSlots [OF b1 tok] by (simp add: removeTimeSlot_cases [OF tok])
next
  case False
  then show ?thesis
    by (simp add: removeTimeSlot_cases [OF tok] refetches_def emit_fields isRefetch_def)
qed

lemma loadSlots_trace_mono: "ev \<in> set (trace s) \<Longrightarrow> ev \<in> set (trace (loadSlots e s))"
  by (simp add: loadSlots_def Let_def call_read case_prod_beta readWorkingDays_snd emit_def
      split: option.splits bool.splits)


lemma cancelEditingSlot_fields:
  "trace (cancelEditingSlot s) = trace s" "barber_slots (cancelEditingSlot s) = barber_slots s"
  "kv (cancelEditingSlot s) = kv s" "next_id (cancelEditingSlot s) = next_id s"
  by (simp_all add: cancelEditingSlot_def)

lemma saveTimeSlot_cases:
  assumes ed: "editingSlot s = Some (dayIndex, slotId)"
    and nd: "\<not> isDuplicateTime s dayIndex (editingTime s) (Some slotId)"
    and tok: "env_sessionToken e = Some tok"
  shows "saveTimeSlot e s =
     (let r = UpdateSlot tok slotId (editingTime s) (endTimeAfter (editingTime s) 60)
      in if env_accepts e r
         then cancelEditingSlot
                (emit ToastSuccess
                   (setDay dayIndex
                      (\<lambda>d. d\<lparr>slots :=
                              sort_key time
                                (map (\<lambda>slot. if id' slot = slotId
                                              then slot\<lparr>time := editingTime s\<rparr> else slot)
                                   (slots d))\<rparr>)
                      (serve r (emit (Request r) s))))
         else (emit ToastError (emit (Request r) s))\<lparr>pauseAutoReload := False\<rparr>)"
  by (simp add: saveTimeSlot_def ed nd tok call_def Let_def del: serve.simps)

lemma saveTimeSlot_trace:
  "trace (saveTimeSlot e s) =
     (case editingSlot s of
        None \<Rightarrow> trace s
      | Some (dayIndex, slotId) \<Rightarrow>
          if isDuplicateTime s dayIndex (editingTime s) (Some slotId) then trace s @ [ToastError]
          else (case env_sessionToken e of
                  None \<Rightarrow> trace s @ [ToastError]
                | Some tok \<Rightarrow>
                    trace s @ [Request (UpdateSlot tok slotId (editingTime s)
                                          (endTimeAfter (editingTime s) 60)),
                               if env_accepts e (UpdateSlot tok slotId (editingTime s)
                                          (endTimeAfter (editingTime s) 60))
                               then ToastSuccess else ToastError]))"
  by (simp add: saveTimeSlot_def call_def Let_def emit_fields setDay_fields serve_client
      cancelEditingSlot_fields split: option.splits del: serve.simps)

lemma refetches_saveTimeSlot: "refetches (saveTimeSlot e s) = refetches s"
  by (simp add: refetches_def saveTimeSlot_trace isRefetch_def split: option.splits)

lemma saveTimeSlot_store:
  assumes ed: "editingSlot s = Some (dayIndex, slotId)"
    and nd: "\<not> isDuplicateTime s dayIndex (editingTime s) (Some slotId)"
    and tok: "env_sessionToken e = Some tok"
    and acc: "env_accepts e (UpdateSlot tok slotId (editingTime s) (endTimeAfter (editingTime s) 60))"
  shows "barber_slots (saveTimeSlot e s) =
     map (\<lambda>r. if row_id r = slotId \<and> barber_id r = tok
              then r\<lparr>start_time := normalizeTime (editingTime s),
                     end_time := normalizeTime (endTimeAfter (editingTime s) 60)\<rparr>
              else r)
       (barber_slots s)"
  using acc
  by (simp add: saveTimeSlot_cases [OF ed nd tok] Let_def cancelEditingSlot_fields emit_fields
      setDay_fields)

lemma instantAddTimeSlot_rejected:
  "addRejected e dayIndex slotTime s \<Longrightarrow> instantAddTimeSlot e dayIndex slotTime s = emit ToastError s"
  by (auto simp: addRejected_def instantAddTimeSlot_def Let_def)

lemma instantAddTimeSlot_cases:
  assumes ok: "\<not> addRejected e dayIndex slotTime s" and tok: "env_sessionToken e = Some tok"
  shows "instantAddTimeSlot e dayIndex slotTime s =
     (let r = CreateSlot tok \<lparr>slot_date = getActualDate e dayIndex (pageIndex s),
                              start_time = normalizeTime slotTime,
                              end_time = normalizeTime (calculateEndTime slotTime),
                              is_available = True\<rparr>
      in if env_accepts e r then loadSlots e (emit ToastSuccess (serve r (emit (Request r) s)))
         else emit ToastError (emit (Request r) s))"
  using ok
  by (auto simp: addRejected_def instantAddTimeSlot_def Let_def tok call_def
      split: option.splits simp del: serve.simps)

lemma refetches_instantAddTimeSlot:
  assumes b: "barberId s = Some b" and tok: "env_sessionToken e = Some tok"
  shows "refetches (instantAddTimeSlot e dayIndex slotTime s) =
     refetches s +
     (if \<not> addRejected e dayIndex slotTime s
         \<and> env_accepts e (CreateSlot tok \<lparr>slot_date = getActualDate e dayIndex (pageIndex s),
                              start_time = normalizeTime slotTime,
                              end_time = normalizeTime (calculateEndTime slotTime),
                              is_available = True\<rparr>)
      then 1 else 0)"
proof (cases "addRejected e dayIndex slotTime s")
  case True
  then show ?thesis
    by (simp add: instantAddTimeSlot_rejected refetches_emit isRefetch_def)
next
  case False
  let ?r = "CreateSlot tok \<lparr>slot_date = getActualDate e dayIndex (pageIndex s),
                              start_time = normalizeTime slotTime,
                              end_time = normalizeTime (calculateEndTime slotTime),
                              is_available = True\<rparr>"
  let ?s1 = "emit ToastSuccess (serve ?r (emit (Request ?r) s))"
  have b1: "barberId ?s1 = Some b" using b by (simp add: emit_fields serve_client del: serve.simps)
  have r1: "refetches ?s1 = refetches s"
    by (simp add: refetches_def emit_fields serve_client isRefetch_def del: serve.simps)
  show ?thesis
    using False refetches_loadSlots [OF b1 tok] r1
    by (simp add: instantAddTimeSlot_cases [OF False tok] Let_def refetches_emit isRefetch_def
        del: serve.simps)
qed

lemma isDuplicateTime_emit: "isDuplicateTime (emit ev s) dayIndex t x = isDuplicateTime s dayIndex t x"
  by (simp add: isDuplicateTime_def emit_fields)

lemma addRejected_emit: "addRejected e dayIndex t (emit ev s) = addRejected e dayIndex t s"
  by (simp add: addRejected_def emit_fields)

lemma handleTimePickerConfirm_rejected:
  assumes idx: "timePickerDayIndex s = Some dayIndex"
    and rej: "isDuplicateTime s dayIndex (selectedStartTime s) None
              \<or> addRejected e dayIndex (selectedStartTime s) s"
  shows "trace (handleTimePickerConfirm e s) = trace s @ [ToastError]
       \<and> barber_slots (handleTimePickerConfirm e s) = barber_slots s
       \<and> kv (handleTimePickerConfirm e s) = kv s
       \<and> next_id (handleTimePickerConfirm e s) = next_id s
       \<and> weekSchedule (handleTimePickerConfirm e s) = weekSchedule s"
proof (cases "selectedStartTime s = [] \<or> isDuplicateTime s dayIndex (selectedStartTime s) None")
  case True
  then have "handleTimePickerConfirm e s = emit ToastError s"
    using idx by (auto simp: handleTimePickerConfirm_def)
  then show ?thesis by (simp add: emit_def)
next
  case False
  let ?s1 = "s\<lparr>showTimePickerModal := False\<rparr>"
  from False rej have "addRejected e dayIndex (selectedStartTime s) s" by blast
  then have "addRejected e dayIndex (selectedStartTime s) ?s1" by (simp add: addRejected_def)
  then have add: "instantAddTimeSlot e dayIndex (selectedStartTime s) ?s1 = emit ToastError ?s1"
    by (rule instantAddTimeSlot_rejected)
  have "handleTimePickerConfirm e s
        = (emit ToastError ?s1)\<lparr>timePickerDayIndex := None, selectedStartTime := []\<rparr>"
    using False idx add by (simp add: handleTimePickerConfirm_def)
  then show ?thesis by (simp add: emit_def)
qed

lemma openAddSlotDialog_rejected:
  assumes i: "dayIndex < length (weekSchedule s)" and ne: "slots (weekSchedule s ! dayIndex) \<noteq> []"
    and acc: "env_accepts e (LatestSlot (barberId s) (getActualDate e dayIndex (pageIndex s)))"
    and lst: "latestSlots (barber_slots s) (barberId s) (getActualDate e dayIndex (pageIndex s))
                = [lastSlot]"
    and rej: "isDuplicateTime s dayIndex (nextTime lastSlot) None
              \<or> addRejected e dayIndex (nextTime lastSlot) s"
  shows "openAddSlotDialog e dayIndex s =
         emit ToastError
           (emit (Request (LatestSlot (barberId s) (getActualDate e dayIndex (pageIndex s)))) s)"
proof -
  let ?r = "LatestSlot (barberId s) (getActualDate e dayIndex (pageIndex s))"
  let ?s1 = "emit (Request ?r) s"
  have open1: "openAddSlotDialog e dayIndex s =
      (if isDuplicateTime ?s1 dayIndex (nextTime lastSlot) None then emit ToastError ?s1
       else instantAddTimeSlot e dayIndex (nextTime lastSlot) ?s1)"
    using i ne acc lst
    by (simp add: openAddSlotDialog_def Let_def call_LatestSlot emit_fields)
  show ?thesis
  proof (cases "isDuplicateTime s dayIndex (nextTime lastSlot) None")
    case True
    then show ?thesis by (simp add: open1 isDuplicateTime_emit)
  next
    case False
    with rej have "addRejected e dayIndex (nextTime lastSlot) ?s1" by (simp add: addRejected_emit)
    then have "instantAddTimeSlot e dayIndex (nextTime lastSlot) ?s1 = emit ToastError ?s1"
      by (rule instantAddTimeSlot_rejected)
    then show ?thesis using False by (simp add: open1 isDuplicateTime_emit)
  qed
qed

text \<open>
  C6 (as amended). A request to add a slot is rejected with an error toast, sends no request
  that creates a slot and leaves the store and the schedule as they are, when the time is
  that of a slot the schedule already holds on that day, when the day is before today, and
  when the day is today and the time is at or before the current minute. For an explicit
  time (the time picker's confirm) nothing at all is sent to the store. For the add button
  of a day that holds slots, whose time is 30 minutes after the latest stored slot of the
  date, the rejection comes after the one request that reads that latest slot.
\<close>

theorem addSlot_rejected_without_create:
  "(timePickerDayIndex s = Some dayIndex
      \<and> (isDuplicateTime s dayIndex (selectedStartTime s) None
          \<or> getActualDate e dayIndex (pageIndex s) < env_today e
          \<or> (getActualDate e dayIndex (pageIndex s) = env_today e
              \<and> (\<exists>slotMinutes. minutesOf (selectedStartTime s) = Some slotMinutes
                    \<and> slotMinutes \<le> env_nowMinutes e)))
    \<longrightarrow> trace (handleTimePickerConfirm e s) = trace s @ [ToastError]
       \<and> barber_slots (handleTimePickerConfirm e s) = barber_slots s
       \<and> kv (handleTimePickerConfirm e s) = kv s
       \<and> next_id (handleTimePickerConfirm e s) = next_id s
       \<and> weekSchedule (handleTimePickerConfirm e s) = weekSchedule s)
   \<and> (dayIndex < length (weekSchedule s) \<and> slots (weekSchedule s ! dayIndex) \<noteq> []
      \<and> env_accepts e (LatestSlot (barberId s) (getActualDate e dayIndex (pageIndex s)))
      \<and> latestSlots (barber_slots s) (barberId s) (getActualDate e dayIndex (pageIndex s))
            = [lastSlot]
      \<and> (isDuplicateTime s dayIndex (nextTime lastSlot) None
          \<or> getActualDate e dayIndex (pageIndex s) < env_today e
          \<or> (getActualDate e dayIndex (pageIndex s) = env_today e
              \<and> (\<exists>slotMinutes. minutesOf (nextTime lastSlot) = Some slotMinutes
                    \<and> slotMinutes \<le> env_nowMinutes e)))
    \<longrightarrow> trace (openAddSlotDialog e dayIndex s)
         = trace s @ [Request (LatestSlot (barberId s) (getActualDate e dayIndex (pageIndex s))),
                      ToastError]
       \<and> barber_slots (openAddSlotDialog e dayIndex s) = barber_slots s
       \<and> kv (openAddSlotDialog e dayIndex s) = kv s
       \<and> next_id (openAddSlotDialog e dayIndex s) = next_id s
       \<and> weekSchedule (openAddSlotDialog e dayIndex s) = weekSchedule s)"
proof (rule conjI; rule impI)
  assume a: "timePickerDayIndex s = Some dayIndex
      \<and> (isDuplicateTime s dayIndex (selectedStartTime s) None
          \<or> getActualDate e dayIndex (pageIndex s) < env_today e
          \<or> (getActualDate e dayIndex (pageIndex s) = env_today e
              \<and> (\<exists>slotMinutes. minutesOf (selectedStartTime s) = Some slotMinutes
                    \<and> slotMinutes \<le> env_nowMinutes e)))"
  then have idx: "timePickerDayIndex s = Some dayIndex"
    and rej: "isDuplicateTime s dayIndex (selectedStartTime s) None
              \<or> addRejected e dayIndex (selectedStartTime s) s"
    unfolding addRejected_def by blast+
  show "trace (handleTimePickerConfirm e s) = trace s @ [ToastError]
       \<and> barber_slots (handleTimePickerConfirm e s) = barber_slots s
       \<and> kv (handleTimePickerConfirm e s) = kv s
       \<and> next_id (handleTimePickerConfirm e s) = next_id s
       \<and> weekSchedule (handleTimePickerConfirm e s) = weekSchedule s"
    by (rule handleTimePickerConfirm_rejected [OF idx rej])
next
  assume a: "dayIndex < length (weekSchedule s) \<and> slots (weekSchedule s ! dayIndex) \<noteq> []
      \<and> env_accepts e (LatestSlot (barberId s) (getActualDate e dayIndex (pageIndex s)))
      \<and> latestSlots (barber_slots s) (barberId s) (getActualDate e dayIndex (pageIndex s))
            = [lastSlot]
      \<and> (isDuplicateTime s dayIndex (nextTime lastSlot) None
          \<or> getActualDate e dayIndex (pageIndex s) < env_today e
          \<or> (getActualDate e dayIndex (pageIndex s) = env_today e
              \<and> (\<exists>slotMinutes. minutesOf (nextTime lastSlot) = Some slotMinutes
                    \<and> slotMinutes \<le> env_nowMinutes e)))"
  then have i: "dayIndex < length (weekSchedule s)" and ne: "slots (weekSchedule s ! dayIndex) \<noteq> []"
    and acc: "env_accepts e (LatestSlot (barberId s) (getActualDate e dayIndex (pageIndex s)))"
    and lst: "latestSlots (barber_slots s) (barberId s) (getActualDate e dayIndex (pageIndex s))
                = [lastSlot]"
    and rej: "isDuplicateTime s dayIndex (nextTime lastSlot) None
              \<or> addRejected e dayIndex (nextTime lastSlot) s"
    unfolding addRejected_def by blast+
  show "trace (openAddSlotDialog e dayIndex s)
         = trace s @ [Request (LatestSlot (barberId s) (getActualDate e dayIndex (pageIndex s))),
                      ToastError]
       \<and> barber_slots (openAddSlotDialog e dayIndex s) = barber_slots s
       \<and> kv (openAddSlotDialog e dayIndex s) = kv s
       \<and> next_id (openAddSlotDialog e dayIndex s) = next_id s
       \<and> weekSchedule (openAddSlotDialog e dayIndex s) = weekSchedule s"
    by (simp add: openAddSlotDialog_rejected [OF i ne acc lst rej] emit_fields)
qed

lemma example_early_slot:
  "0 < length (weekSchedule (workingExample [exampleRow ''a'' 100 ''08:00:00'' False]))"
  "slots (weekSchedule (workingExample [exampleRow ''a'' 100 ''08:00:00'' False]) ! 0) \<noteq> []"
  "barberId (workingExample [exampleRow ''a'' 100 ''08:00:00'' False]) = Some ''b1''"
  "getActualDate exampleEnv 0 (pageIndex (workingExample [exampleRow ''a'' 100 ''08:00:00'' False]))
     = 100"
  "latestSlots (barber_slots (workingExample [exampleRow ''a'' 100 ''08:00:00'' False]))
     (Some ''b1'') 100 = [''08:00:00'']"
  "nextTime ''08:00:00'' = ''08:30''"
  "minutesOf ''08:30'' = Some 510"
  by code_simp+

theorem addSlot_rejected_without_create_witness:
  "isDuplicateTime
     ((loadedExample [exampleRow ''b'' 101 ''09:00:00'' False] 0)
        \<lparr>timePickerDayIndex := Some 1, selectedStartTime := ''09:00''\<rparr>) 1 ''09:00'' None
   \<and> trace (handleTimePickerConfirm exampleEnv
        ((loadedExample [exampleRow ''b'' 101 ''09:00:00'' False] 0)
           \<lparr>timePickerDayIndex := Some 1, selectedStartTime := ''09:00''\<rparr>))
       = trace (loadedExample [exampleRow ''b'' 101 ''09:00:00'' False] 0) @ [ToastError]
   \<and> getActualDate exampleEnv 0 (- 1) < env_today exampleEnv
   \<and> trace (handleTimePickerConfirm exampleEnv
        ((exampleWorld [])\<lparr>pageIndex := - 1, timePickerDayIndex := Some 0, selectedStartTime := ''12:00''\<rparr>))
       = [ToastError]
   \<and> getActualDate exampleEnv 0 0 = env_today exampleEnv
   \<and> minutesOf ''09:15'' = Some 555 \<and> 555 \<le> env_nowMinutes exampleEnv
   \<and> trace (handleTimePickerConfirm exampleEnv
        ((exampleWorld [])\<lparr>timePickerDayIndex := Some 0, selectedStartTime := ''09:15''\<rparr>))
       = [ToastError]
   \<and> latestSlots (barber_slots (workingExample [exampleRow ''a'' 100 ''08:00:00'' False]))
        (Some ''b1'') 100 = [''08:00:00'']
   \<and> minutesOf (nextTime ''08:00:00'') = Some 510 \<and> 510 \<le> env_nowMinutes exampleEnv
   \<and> barber_slots (openAddSlotDialog exampleEnv 0 (workingExample [exampleRow ''a'' 100 ''08:00:00'' False]))
       = barber_slots (workingExample [exampleRow ''a'' 100 ''08:00:00'' False])"
proof -
  let ?a = "(loadedExample [exampleRow ''b'' 101 ''09:00:00'' False] 0)
              \<lparr>timePickerDayIndex := Some 1, selectedStartTime := ''09:00''\<rparr>"
  let ?b = "(exampleWorld [])\<lparr>pageIndex := - 1, timePickerDayIndex := Some 0, selectedStartTime := ''12:00''\<rparr>"
  let ?c = "(exampleWorld [])\<lparr>timePickerDayIndex := Some 0, selectedStartTime := ''09:15''\<rparr>"
  let ?W = "workingExample [exampleRow ''a'' 100 ''08:00:00'' False]"
  have dup: "isDuplicateTime ?a 1 ''09:00'' None" by code_simp
  have past: "getActualDate exampleEnv 0 (- 1) < env_today exampleEnv" by code_simp
  have today: "getActualDate exampleEnv 0 0 = env_today exampleEnv" by code_simp
  have m: "minutesOf ''09:15'' = Some 555" by code_simp
  have now: "555 \<le> env_nowMinutes exampleEnv" by (simp add: exampleEnv_def)
  have now': "510 \<le> env_nowMinutes exampleEnv" by (simp add: exampleEnv_def)
  have t: "env_today exampleEnv = 100" by (simp add: exampleEnv_def)
  have ia: "timePickerDayIndex ?a = Some 1" and ib: "timePickerDayIndex ?b = Some 0"
    and ic: "timePickerDayIndex ?c = Some 0" by simp_all
  have ra: "isDuplicateTime ?a 1 (selectedStartTime ?a) None" using dup by simp
  have rb: "getActualDate exampleEnv 0 (pageIndex ?b) < env_today exampleEnv" using past by simp
  have rc: "getActualDate exampleEnv 0 (pageIndex ?c) = env_today exampleEnv
      \<and> (\<exists>slotMinutes. minutesOf (selectedStartTime ?c) = Some slotMinutes
            \<and> slotMinutes \<le> env_nowMinutes exampleEnv)"
    using today m now by (simp add: exampleWorld_def)
  have ta: "trace (handleTimePickerConfirm exampleEnv ?a) = trace ?a @ [ToastError]"
    using addSlot_rejected_without_create [of ?a 1 exampleEnv] ia ra by blast
  have tb: "trace (handleTimePickerConfirm exampleEnv ?b) = trace ?b @ [ToastError]"
    using addSlot_rejected_without_create [of ?b 0 exampleEnv] ib rb by blast
  have tc: "trace (handleTimePickerConfirm exampleEnv ?c) = trace ?c @ [ToastError]"
    using addSlot_rejected_without_create [of ?c 0 exampleEnv] ic rc by blast
  have e: "trace ?b = []" "trace ?c = []" by (simp_all add: exampleWorld_def)
  have m': "minutesOf (nextTime ''08:00:00'') = Some 510"
    by (simp add: example_early_slot(6,7))
  have lst: "latestSlots (barber_slots ?W) (barberId ?W) (getActualDate exampleEnv 0 (pageIndex ?W))
               = [''08:00:00'']"
    by (simp add: example_early_slot(3,4,5))
  have rw: "getActualDate exampleEnv 0 (pageIndex ?W) = env_today exampleEnv
      \<and> (\<exists>slotMinutes. minutesOf (nextTime ''08:00:00'') = Some slotMinutes
            \<and> slotMinutes \<le> env_nowMinutes exampleEnv)"
    using m' now' t by (simp add: example_early_slot(4))
  have tw: "barber_slots (openAddSlotDialog exampleEnv 0 ?W) = barber_slots ?W"
    using addSlot_rejected_without_create [of ?W 0 exampleEnv "''08:00:00''"]
      example_early_slot(1,2) exampleEnv_accepts lst rw by blast
  have l: "latestSlots (barber_slots ?W) (Some ''b1'') 100 = [''08:00:00'']"
    by (rule example_early_slot(5))
  show ?thesis using dup past today m now ta tb tc e l m' now' tw by simp
qed

text \<open>
  Against C6 as stated: today holds a slot at 08:00 and it is 09:15. The add button of today
  asks the store for the latest slot, computes 08:30 and only then rejects it: a request to
  the store comes before the rejection.
\<close>

theorem addSlot_storage_read_counterexample:
  "map time (slots (weekSchedule (workingExample [exampleRow ''a'' 100 ''08:00:00'' False]) ! 0))
     = [''08:00'']
   \<and> env_nowMinutes exampleEnv = 555
   \<and> trace (openAddSlotDialog exampleEnv 0 (workingExample [exampleRow ''a'' 100 ''08:00:00'' False]))
       = trace (workingExample [exampleRow ''a'' 100 ''08:00:00'' False])
         @ [Request (LatestSlot (Some ''b1'') 100), ToastError]"
proof -
  let ?W = "workingExample [exampleRow ''a'' 100 ''08:00:00'' False]"
  have held: "map time (slots (weekSchedule ?W ! 0)) = [''08:00'']" by code_simp
  have now: "env_nowMinutes exampleEnv = 555" by (simp add: exampleEnv_def)
  have t: "env_today exampleEnv = 100" by (simp add: exampleEnv_def)
  have lst: "latestSlots (barber_slots ?W) (barberId ?W) (getActualDate exampleEnv 0 (pageIndex ?W))
               = [''08:00:00'']"
    by (simp add: example_early_slot(3,4,5))
  have rej: "isDuplicateTime ?W 0 (nextTime ''08:00:00'') None
             \<or> addRejected exampleEnv 0 (nextTime ''08:00:00'') ?W"
    by (simp add: addRejected_def example_early_slot(4,6,7) t now)
  have "openAddSlotDialog exampleEnv 0 ?W =
         emit ToastError
           (emit (Request (LatestSlot (barberId ?W) (getActualDate exampleEnv 0 (pageIndex ?W)))) ?W)"
    by (rule openAddSlotDialog_rejected [OF example_early_slot(1,2) exampleEnv_accepts lst rej])
  then have tr: "trace (openAddSlotDialog exampleEnv 0 ?W)
       = trace ?W @ [Request (LatestSlot (Some ''b1'') 100), ToastError]"
    by (simp add: emit_fields example_early_slot(3,4))
  show ?thesis using held now tr by (intro conjI)
qed

section \<open>Booked slots\<close>






section \<open>Executing quick setup\<close>

lemma fold_update_fields:
  "barber_slots (fold (\<lambda>d. updateWorkingDayState e d w) ds s) = barber_slots s
   \<and> next_id (fold (\<lambda>d. updateWorkingDayState e d w) ds s) = next_id s
   \<and> weekSchedule (fold (\<lambda>d. updateWorkingDayState e d w) ds s) = weekSchedule s
   \<and> barberId (fold (\<lambda>d. updateWorkingDayState e d w) ds s) = barberId s
   \<and> pageIndex (fold (\<lambda>d. updateWorkingDayState e d w) ds s) = pageIndex s
   \<and> refetches (fold (\<lambda>d. updateWorkingDayState e d w) ds s) = refetches s"
  by (induction ds arbitrary: s)
     (simp_all add: updateWorkingDayState_fields refetches_updateWorkingDayState)

lemma fold_update_flag:
  assumes tok: "env_sessionToken e = Some tok" and acc: "\<And>r. env_accepts e r"
  shows "storedFlag (fold (\<lambda>d. updateWorkingDayState e d w) ds s) d' =
         (if d' \<in> set ds then (if w then Some (JBool True) else None) else storedFlag s d')"
proof (induction ds arbitrary: s)
  case Nil
  then show ?case by simp
next
  case (Cons d ds)
  show ?case
    by (simp add: Cons.IH updateWorkingDayState_flag [OF tok acc])
qed

lemma executeQuickSetup_no_token:
  "env_sessionToken e = None \<Longrightarrow>
   executeQuickSetup e s =
     Some ((emit ToastError (s\<lparr>showQuickSetupConfirmModal := False, isQuickSetupProcessing := True\<rparr>))
             \<lparr>isQuickSetupProcessing := False\<rparr>)"
  by (simp add: executeQuickSetup_def Let_def)

lemma executeQuickSetup_cases:
  assumes tok: "env_sessionToken e = Some tok"
    and gen: "generateTimeSlots (quickSetupFromTime s) (quickSetupToTime s) (quickSetupDuration s)
              = Some slotTimes"
  shows "executeQuickSetup e s =
     (let s0 = s\<lparr>showQuickSetupConfirmModal := False, isQuickSetupProcessing := True\<rparr>;
          toInsert = allSlotsToInsert e slotTimes (quickSetupDuration s);
          r = BatchReplace tok toInsert (env_today e) (env_today e + 6)
      in if toInsert \<noteq> [] \<and> \<not> env_accepts e r
         then Some ((loadSlots e (emit ToastError (emit (Request r) s0)))\<lparr>isQuickSetupProcessing := False\<rparr>)
         else Some ((loadSlots e
                       (emit ToastSuccess
                          (fold (\<lambda>dateStr. updateWorkingDayState e dateStr True) (workingDayUpdates e)
                             (if toInsert \<noteq> [] then serve r (emit (Request r) s0) else s0))))
                    \<lparr>isQuickSetupProcessing := False\<rparr>))"
  by (simp add: executeQuickSetup_def Let_def tok gen call_def del: serve.simps)

lemma executeQuickSetup_refetches:
  assumes b: "barberId s = Some b" and tok: "env_sessionToken e = Some tok"
    and run: "executeQuickSetup e s = Some s'"
  shows "refetches s' = refetches s + 1"
proof -
  from run obtain slotTimes where
    gen: "generateTimeSlots (quickSetupFromTime s) (quickSetupToTime s) (quickSetupDuration s)
          = Some slotTimes"
    by (auto simp: executeQuickSetup_def Let_def tok split: option.splits)
  let ?s0 = "s\<lparr>showQuickSetupConfirmModal := False, isQuickSetupProcessing := True\<rparr>"
  let ?ins = "allSlotsToInsert e slotTimes (quickSetupDuration s)"
  let ?r = "BatchReplace tok ?ins (env_today e) (env_today e + 6)"
  let ?fail = "emit ToastError (emit (Request ?r) ?s0)"
  let ?mid = "if ?ins \<noteq> [] then serve ?r (emit (Request ?r) ?s0) else ?s0"
  let ?done = "emit ToastSuccess (fold (\<lambda>dateStr. updateWorkingDayState e dateStr True) (workingDayUpdates e) ?mid)"
  have s0: "refetches ?s0 = refetches s" "barberId ?s0 = Some b" using b by (simp_all add: refetches_def)
  have fail: "refetches ?fail = refetches s" "barberId ?fail = Some b"
    using s0 by (simp_all add: refetches_emit isRefetch_def emit_fields)
  have mid: "refetches ?mid = refetches s" "barberId ?mid = Some b"
    using s0 by (simp_all add: refetches_def serve_client emit_fields isRefetch_def del: serve.simps)
  have dn: "refetches ?done = refetches s" "barberId ?done = Some b"
    using mid fold_update_fields [of e True "workingDayUpdates e" ?mid]
    by (simp_all add: refetches_emit isRefetch_def emit_fields)
  have "s' = (loadSlots e ?fail)\<lparr>isQuickSetupProcessing := False\<rparr>
        \<or> s' = (loadSlots e ?done)\<lparr>isQuickSetupProcessing := False\<rparr>"
    using run unfolding executeQuickSetup_cases [OF tok gen] Let_def by (auto split: if_splits)
  then show ?thesis
    using refetches_loadSlots [OF fail(2) tok] refetches_loadSlots [OF dn(2) tok] fail(1) dn(1)
    by (auto simp: refetches_def)
qed

lemma insertAll_not_booked: "filter is_booked (insertAll b ps n) = []"
  by (induction ps arbitrary: n) (simp_all add: newRow_def)

lemma executeQuickSetup_store:
  assumes tok: "env_sessionToken e = Some tok"
    and gen: "generateTimeSlots (quickSetupFromTime s) (quickSetupToTime s) (quickSetupDuration s)
              = Some slotTimes"
    and ne: "allSlotsToInsert e slotTimes (quickSetupDuration s) \<noteq> []"
    and acc: "env_accepts e (BatchReplace tok (allSlotsToInsert e slotTimes (quickSetupDuration s))
                               (env_today e) (env_today e + 6))"
  shows "\<exists>s'. executeQuickSetup e s = Some s'
           \<and> barber_slots s' =
               filter (\<lambda>r. \<not> inRange tok (env_today e) (env_today e + 6) r) (barber_slots s)
               @ insertAll tok (allSlotsToInsert e slotTimes (quickSetupDuration s)) (next_id s)"
  unfolding executeQuickSetup_cases [OF tok gen] Let_def
  using ne acc fold_update_fields [of e True "workingDayUpdates e"]
  by (simp add: loadSlots_store emit_fields)

lemma slotsForDay_date: "p \<in> set (slotsForDay e k slotTimes duration) \<Longrightarrow> slot_date p = env_today e + int k"
  by (auto simp: slotsForDay_def)

lemma filter_slotsForDay:
  "filter (\<lambda>p. slot_date p = env_today e + int j) (slotsForDay e k slotTimes duration)
   = (if k = j then slotsForDay e k slotTimes duration else [])"
  by (auto simp: filter_empty_conv filter_id_conv dest: slotsForDay_date)

lemma concat_single:
  "distinct ks \<Longrightarrow> j \<in> set ks \<Longrightarrow> concat (map (\<lambda>k. if k = j then f k else []) ks) = f j"
  by (induction ks) auto

lemma filter_allSlotsToInsert:
  assumes "dayOffset < 7"
  shows "filter (\<lambda>p. slot_date p = env_today e + int dayOffset) (allSlotsToInsert e slotTimes duration)
         = slotsForDay e dayOffset slotTimes duration"
proof -
  have "filter (\<lambda>p. slot_date p = env_today e + int dayOffset) (allSlotsToInsert e slotTimes duration)
        = concat (map (\<lambda>k. if k = dayOffset then slotsForDay e k slotTimes duration else []) [0..<7])"
    by (simp add: allSlotsToInsert_def filter_concat comp_def filter_slotsForDay del: upt_Suc)
  also have "\<dots> = slotsForDay e dayOffset slotTimes duration"
    using assms by (intro concat_single) simp_all
  finally show ?thesis .
qed

lemma slotsForDay_today:
  "map start_time (slotsForDay e 0 slotTimes duration)
   = map normalizeTime
       (filter (\<lambda>t. \<not> (\<exists>m. minutesOf t = Some m \<and> m \<le> env_nowMinutes e)) slotTimes)"
proof -
  have "\<And>t. (\<not> (case minutesOf t of None \<Rightarrow> False | Some m \<Rightarrow> m \<le> env_nowMinutes e))
        = (\<not> (\<exists>m. minutesOf t = Some m \<and> m \<le> env_nowMinutes e))"
    by (simp split: option.splits)
  then show ?thesis by (simp add: slotsForDay_def comp_def)
qed

lemma slotsForDay_later:
  "0 < dayOffset \<Longrightarrow> map start_time (slotsForDay e dayOffset slotTimes duration) = map normalizeTime slotTimes"
  by (simp add: slotsForDay_def comp_def)

lemma executeQuickSetup_sends:
  assumes tok: "env_sessionToken e = Some tok"
    and gen: "generateTimeSlots (quickSetupFromTime s) (quickSetupToTime s) (quickSetupDuration s)
              = Some slotTimes"
    and ne: "allSlotsToInsert e slotTimes (quickSetupDuration s) \<noteq> []"
  shows "\<exists>s'. executeQuickSetup e s = Some s'
           \<and> Request (BatchReplace tok (allSlotsToInsert e slotTimes (quickSetupDuration s))
                         (env_today e) (env_today e + 6)) \<in> set (trace s')"
proof -
  let ?s0 = "s\<lparr>showQuickSetupConfirmModal := False, isQuickSetupProcessing := True\<rparr>"
  let ?ins = "allSlotsToInsert e slotTimes (quickSetupDuration s)"
  let ?r = "BatchReplace tok ?ins (env_today e) (env_today e + 6)"
  have sent: "Request ?r \<in> set (trace (emit (Request ?r) ?s0))" by (simp add: emit_fields)
  have upd: "\<And>ds s1. Request ?r \<in> set (trace s1) \<Longrightarrow>
      Request ?r \<in> set (trace (fold (\<lambda>dateStr. updateWorkingDayState e dateStr True) ds s1))"
  proof -
    fix ds s1 show "Request ?r \<in> set (trace s1) \<Longrightarrow>
      Request ?r \<in> set (trace (fold (\<lambda>dateStr. updateWorkingDayState e dateStr True) ds s1))"
      by (induction ds arbitrary: s1) (simp_all add: updateWorkingDayState_trace tok)
  qed
  show ?thesis
    unfolding executeQuickSetup_cases [OF tok gen] Let_def
    using ne sent upd
    by (simp add: loadSlots_trace_mono emit_fields serve_client del: serve.simps)
qed

text \<open>
  C5. Of the slots quick setup builds, those of day offset \<open>k\<close> (for \<open>k\<close> below 7) are the
  ones built for that offset; for offset 0 they are the generated starts that are not at or
  before the current minute, and for offsets 1 to 6 they are all generated starts. The
  built slots are what the batch request carries.
\<close>

theorem quick_setup_skips_past_starts_today_only:
  assumes "dayOffset < 7"
  shows "filter (\<lambda>p. slot_date p = env_today e + int dayOffset) (allSlotsToInsert e slotTimes duration)
           = slotsForDay e dayOffset slotTimes duration
       \<and> map start_time (slotsForDay e 0 slotTimes duration)
           = map normalizeTime
               (filter (\<lambda>t. \<not> (\<exists>m. minutesOf t = Some m \<and> m \<le> env_nowMinutes e)) slotTimes)
       \<and> (0 < dayOffset \<longrightarrow>
            map start_time (slotsForDay e dayOffset slotTimes duration) = map normalizeTime slotTimes)
       \<and> (env_sessionToken e = Some tok
            \<and> generateTimeSlots (quickSetupFromTime s) (quickSetupToTime s) (quickSetupDuration s)
                = Some slotTimes
            \<and> allSlotsToInsert e slotTimes (quickSetupDuration s) \<noteq> [] \<longrightarrow>
            (\<exists>s'. executeQuickSetup e s = Some s'
               \<and> Request (BatchReplace tok (allSlotsToInsert e slotTimes (quickSetupDuration s))
                            (env_today e) (env_today e + 6)) \<in> set (trace s')))"
  using filter_allSlotsToInsert [OF assms] slotsForDay_today slotsForDay_later executeQuickSetup_sends
  by blast

theorem quick_setup_skips_past_starts_today_only_witness:
  "(1::nat) < 7 \<and> env_nowMinutes exampleEnv = 555
   \<and> minutesOf ''09:00'' = Some 540 \<and> minutesOf ''09:30'' = Some 570
   \<and> map start_time (filter (\<lambda>p. slot_date p = env_today exampleEnv + int 0)
        (allSlotsToInsert exampleEnv [''09:00'', ''09:30''] 30)) = [''09:30:00'']
   \<and> map start_time (filter (\<lambda>p. slot_date p = env_today exampleEnv + int 1)
        (allSlotsToInsert exampleEnv [''09:00'', ''09:30''] 30)) = [''09:00:00'', ''09:30:00'']"
proof -
  have m: "minutesOf ''09:00'' = Some 540" "minutesOf ''09:30'' = Some 570" by code_simp+
  have n: "normalizeTime ''09:00'' = ''09:00:00''" "normalizeTime ''09:30'' = ''09:30:00''"
    by code_simp+
  have now: "env_nowMinutes exampleEnv = 555" by (simp add: exampleEnv_def)
  have d0: "map start_time (filter (\<lambda>p. slot_date p = env_today exampleEnv + int 0)
        (allSlotsToInsert exampleEnv [''09:00'', ''09:30''] 30)) = [''09:30:00'']"
    using quick_setup_skips_past_starts_today_only [of 0 exampleEnv "[''09:00'', ''09:30'']" 30]
    by (simp add: m n now)
  have d1: "map start_time (filter (\<lambda>p. slot_date p = env_today exampleEnv + int 1)
        (allSlotsToInsert exampleEnv [''09:00'', ''09:30''] 30)) = [''09:00:00'', ''09:30:00'']"
    using quick_setup_skips_past_starts_today_only [of 1 exampleEnv "[''09:00'', ''09:30'']" 30]
    by (simp add: n)
  show ?thesis using m now d0 d1 by simp
qed

lemma example_generated: "generateTimeSlots ''09:00'' ''10:00'' 30 = Some [''09:00'', ''09:30'']"
  by code_simp

lemma example_inserts: "allSlotsToInsert exampleEnv [''09:00'', ''09:30''] 30 \<noteq> []"
proof -
  have "filter (\<lambda>p. slot_date p = env_today exampleEnv + int 1)
          (allSlotsToInsert exampleEnv [''09:00'', ''09:30''] 30)
        = slotsForDay exampleEnv 1 [''09:00'', ''09:30''] 30"
    by (rule filter_allSlotsToInsert) simp
  moreover have "slotsForDay exampleEnv 1 [''09:00'', ''09:30''] 30 \<noteq> []"
    by (simp add: slotsForDay_def)
  ultimately show ?thesis by force
qed

text \<open>
  Against C3 as stated. With only a slot on day 107 (inside the page of eight days, outside
  the seven days 100 to 106) quick setup asks for confirmation and sends nothing; on page 1,
  with a booked slot on day 100, it asks nothing and the slot is gone from the store.
\<close>

theorem quick_setup_confirmation_counterexample:
  "env_today exampleEnv = 100
   \<and> map slot_date (barber_slots (loadedExample [exampleRow ''c'' 107 ''09:00:00'' False] 0)) = [107]
   \<and> fst (validateQuickSetup (loadedExample [exampleRow ''c'' 107 ''09:00:00'' False] 0))
   \<and> map_option showQuickSetupConfirmModal
        (handleQuickSetup exampleEnv (loadedExample [exampleRow ''c'' 107 ''09:00:00'' False] 0)) = Some True
   \<and> map_option trace
        (handleQuickSetup exampleEnv (loadedExample [exampleRow ''c'' 107 ''09:00:00'' False] 0))
       = Some (trace (loadedExample [exampleRow ''c'' 107 ''09:00:00'' False] 0))
   \<and> map slot_date (barber_slots (loadedExample [exampleRow ''a'' 100 ''09:00:00'' True] 1)) = [100]
   \<and> map is_booked (barber_slots (loadedExample [exampleRow ''a'' 100 ''09:00:00'' True] 1)) = [True]
   \<and> fst (validateQuickSetup (loadedExample [exampleRow ''a'' 100 ''09:00:00'' True] 1))
   \<and> map_option (\<lambda>s. filter is_booked (barber_slots s))
        (handleQuickSetup exampleEnv (loadedExample [exampleRow ''a'' 100 ''09:00:00'' True] 1)) = Some []"
proof -
  let ?a = "loadedExample [exampleRow ''c'' 107 ''09:00:00'' False] 0"
  let ?b = "loadedExample [exampleRow ''a'' 100 ''09:00:00'' True] 1"
  have t: "env_today exampleEnv = 100" by (simp add: exampleEnv_def)
  have a1: "map slot_date (barber_slots ?a) = [107]" by code_simp
  have a2: "fst (validateQuickSetup ?a)" by code_simp
  have a3: "map_option showQuickSetupConfirmModal (handleQuickSetup exampleEnv ?a) = Some True"
    by code_simp
  have a4: "map_option trace (handleQuickSetup exampleEnv ?a) = Some (trace ?a)" by code_simp
  have b1: "map slot_date (barber_slots ?b) = [100]" by code_simp
  have b2: "map is_booked (barber_slots ?b) = [True]" by code_simp
  have vb: "validateQuickSetup ?b = (True, ?b)" by code_simp
  have b3: "fst (validateQuickSetup ?b)" by (simp add: vb)
  have "hasExistingSlots ?b = False" by code_simp
  then have nb: "\<not> hasExistingSlots ?b" by simp
  have hb: "handleQuickSetup exampleEnv ?b = executeQuickSetup exampleEnv ?b"
    using nb by (simp add: handleQuickSetup_def vb)
  have tok: "env_sessionToken exampleEnv = Some ''b1''" by (simp add: exampleEnv_def)
  have q: "quickSetupFromTime ?b = ''09:00''" "quickSetupToTime ?b = ''10:00''"
    "quickSetupDuration ?b = 30" by code_simp+
  have gen: "generateTimeSlots (quickSetupFromTime ?b) (quickSetupToTime ?b) (quickSetupDuration ?b)
             = Some [''09:00'', ''09:30'']"
    unfolding q by (rule example_generated)
  have ne: "allSlotsToInsert exampleEnv [''09:00'', ''09:30''] (quickSetupDuration ?b) \<noteq> []"
    unfolding q by (rule example_inserts)
  from executeQuickSetup_store [OF tok gen ne exampleEnv_accepts]
  obtain s' where run: "executeQuickSetup exampleEnv ?b = Some s'"
    and rows: "barber_slots s' =
               filter (\<lambda>r. \<not> inRange ''b1'' (env_today exampleEnv) (env_today exampleEnv + 6) r) (barber_slots ?b)
               @ insertAll ''b1'' (allSlotsToInsert exampleEnv [''09:00'', ''09:30''] (quickSetupDuration ?b)) (next_id ?b)"
    by blast
  have rb: "barber_slots ?b = [exampleRow ''a'' 100 ''09:00:00'' True]"
    by (simp add: loadedExample_def loadSlots_store exampleWorld_def)
  have "filter is_booked (barber_slots s') = []"
    unfolding rows rb by (simp add: insertAll_not_booked inRange_def exampleRow_def t)
  then have b4: "map_option (\<lambda>s. filter is_booked (barber_slots s)) (handleQuickSetup exampleEnv ?b) = Some []"
    by (simp add: hb run)
  show ?thesis using t a1 a2 a3 a4 b1 b2 b3 b4 by (intro conjI)
qed

section \<open>Toggling a day\<close>

lemma serve_DeleteDay:
  "barber_slots (serve (DeleteDay bo d) s) =
     filter (\<lambda>r. \<not> (Some (barber_id r) = bo \<and> slot_date r = d)) (barber_slots s)"
  "kv (serve (DeleteDay bo d) s) = kv s" "next_id (serve (DeleteDay bo d) s) = next_id s"
  by simp_all

declare serve.simps [simp del]

lemma storedFlag_cong: "kv s' = kv s \<Longrightarrow> barberId s' = barberId s \<Longrightarrow> storedFlag s' d = storedFlag s d"
  by (simp add: storedFlag_def)

lemma toggleDayOff_off:
  assumes i: "dayIndex < length (weekSchedule s)" and on: "\<not> isOff (weekSchedule s ! dayIndex)"
    and acc: "env_accepts e (DeleteDay (barberId s) (getActualDate e dayIndex (pageIndex s)))"
  shows "toggleDayOff e dayIndex s =
     emit ToastSuccess
       (setDay dayIndex (\<lambda>d. d\<lparr>isOff := True, slots := []\<rparr>)
          (updateWorkingDayState e (getActualDate e dayIndex (pageIndex s)) False
             (serve (DeleteDay (barberId s) (getActualDate e dayIndex (pageIndex s)))
                (emit (Request (DeleteDay (barberId s) (getActualDate e dayIndex (pageIndex s)))) s))))"
  using i on acc by (simp add: toggleDayOff_def Let_def call_def del: serve.simps)

lemma toggleDayOff_on:
  assumes i: "dayIndex < length (weekSchedule s)" and off: "isOff (weekSchedule s ! dayIndex)"
  shows "toggleDayOff e dayIndex s =
     emit ToastSuccess
       (setDay dayIndex (\<lambda>d. d\<lparr>isOff := False\<rparr>)
          (updateWorkingDayState e (getActualDate e dayIndex (pageIndex s)) True s))"
  using i off by (simp add: toggleDayOff_def Let_def)

lemma toggle_off_effect:
  assumes i: "dayIndex < length (weekSchedule s)" and on: "\<not> isOff (weekSchedule s ! dayIndex)"
    and tok: "env_sessionToken e = Some tok" and acc: "\<And>r. env_accepts e r"
  shows "barber_slots (toggleDayOff e dayIndex s) =
           filter (\<lambda>r. \<not> (Some (barber_id r) = barberId s
                           \<and> slot_date r = getActualDate e dayIndex (pageIndex s)))
             (barber_slots s)"
    and "storedFlag (toggleDayOff e dayIndex s) (getActualDate e dayIndex (pageIndex s)) = None"
    and "weekSchedule (toggleDayOff e dayIndex s) ! dayIndex
           = (weekSchedule s ! dayIndex)\<lparr>isOff := True, slots := []\<rparr>"
    and "length (weekSchedule (toggleDayOff e dayIndex s)) = length (weekSchedule s)"
    and "barberId (toggleDayOff e dayIndex s) = barberId s"
    and "pageIndex (toggleDayOff e dayIndex s) = pageIndex s"
proof -
  let ?d = "getActualDate e dayIndex (pageIndex s)"
  let ?r = "DeleteDay (barberId s) ?d"
  let ?s1 = "serve ?r (emit (Request ?r) s)"
  let ?s2 = "updateWorkingDayState e ?d False ?s1"
  let ?s3 = "setDay dayIndex (\<lambda>d. d\<lparr>isOff := True, slots := []\<rparr>) ?s2"
  have eq: "toggleDayOff e dayIndex s = emit ToastSuccess ?s3"
    by (rule toggleDayOff_off [OF i on acc])
  have s1: "weekSchedule ?s1 = weekSchedule s" "barberId ?s1 = barberId s" "pageIndex ?s1 = pageIndex s"
    by (simp_all add: serve_client emit_fields del: serve.simps)
  have s2: "weekSchedule ?s2 = weekSchedule s" "barberId ?s2 = barberId s" "pageIndex ?s2 = pageIndex s"
    "barber_slots ?s2 = barber_slots ?s1"
    by (simp_all add: updateWorkingDayState_fields s1 del: serve.simps)
  show "barber_slots (toggleDayOff e dayIndex s) =
           filter (\<lambda>r. \<not> (Some (barber_id r) = barberId s \<and> slot_date r = ?d)) (barber_slots s)"
    by (simp add: eq emit_fields setDay_fields s2 serve_DeleteDay)
  have "storedFlag (toggleDayOff e dayIndex s) ?d = storedFlag ?s2 ?d"
    by (rule storedFlag_cong) (simp_all add: eq emit_fields setDay_fields)
  also have "storedFlag ?s2 ?d = None"
    using updateWorkingDayState_flag [OF tok acc, of ?d False ?s1 ?d] by simp
  finally show "storedFlag (toggleDayOff e dayIndex s) ?d = None" .
  show "weekSchedule (toggleDayOff e dayIndex s) ! dayIndex
           = (weekSchedule s ! dayIndex)\<lparr>isOff := True, slots := []\<rparr>"
    using i by (simp add: eq emit_fields setDay_nth s2)
  show "length (weekSchedule (toggleDayOff e dayIndex s)) = length (weekSchedule s)"
    by (simp add: eq emit_fields setDay_length s2)
  show "barberId (toggleDayOff e dayIndex s) = barberId s"
    by (simp add: eq emit_fields setDay_fields s2)
  show "pageIndex (toggleDayOff e dayIndex s) = pageIndex s"
    by (simp add: eq emit_fields setDay_fields s2)
qed

lemma toggle_on_effect:
  assumes i: "dayIndex < length (weekSchedule s)" and off: "isOff (weekSchedule s ! dayIndex)"
    and tok: "env_sessionToken e = Some tok" and acc: "\<And>r. env_accepts e r"
  shows "barber_slots (toggleDayOff e dayIndex s) = barber_slots s"
    and "next_id (toggleDayOff e dayIndex s) = next_id s"
    and "storedFlag (toggleDayOff e dayIndex s) (getActualDate e dayIndex (pageIndex s)) = Some (JBool True)"
    and "weekSchedule (toggleDayOff e dayIndex s) ! dayIndex = (weekSchedule s ! dayIndex)\<lparr>isOff := False\<rparr>"
proof -
  let ?d = "getActualDate e dayIndex (pageIndex s)"
  let ?s2 = "updateWorkingDayState e ?d True s"
  have eq: "toggleDayOff e dayIndex s = emit ToastSuccess (setDay dayIndex (\<lambda>d. d\<lparr>isOff := False\<rparr>) ?s2)"
    by (rule toggleDayOff_on [OF i off])
  show "barber_slots (toggleDayOff e dayIndex s) = barber_slots s"
    by (simp add: eq emit_fields setDay_fields updateWorkingDayState_fields)
  show "next_id (toggleDayOff e dayIndex s) = next_id s"
    by (simp add: eq emit_fields setDay_fields updateWorkingDayState_fields)
  have "storedFlag (toggleDayOff e dayIndex s) ?d = storedFlag ?s2 ?d"
    by (rule storedFlag_cong) (simp_all add: eq emit_fields setDay_fields)
  also have "storedFlag ?s2 ?d = Some (JBool True)"
    using updateWorkingDayState_flag [OF tok acc, of ?d True s ?d] by simp
  finally show "storedFlag (toggleDayOff e dayIndex s) ?d = Some (JBool True)" .
  show "weekSchedule (toggleDayOff e dayIndex s) ! dayIndex = (weekSchedule s ! dayIndex)\<lparr>isOff := False\<rparr>"
    using i by (simp add: eq emit_fields setDay_nth updateWorkingDayState_fields)
qed

text \<open>
  C9 (as amended). With a session token and a store that accepts the requests: toggling off a day that
  is working deletes the barber's slots of that date from the store, removes the date's
  working flag and leaves the day off and empty in the schedule; toggling on a day that is
  off stores the flag \<open>true\<close> and creates no slot; toggling off and then on leaves the day
  working, as it was, with the flag stored, and its slots are gone from the store and from
  the schedule.
\<close>

theorem toggleDayOff_effects:
  assumes i: "dayIndex < length (weekSchedule s)"
    and tok: "env_sessionToken e = Some tok" and acc: "\<And>r. env_accepts e r"
  shows "(\<not> isOff (weekSchedule s ! dayIndex) \<longrightarrow>
            barber_slots (toggleDayOff e dayIndex s)
              = filter (\<lambda>r. \<not> (Some (barber_id r) = barberId s
                              \<and> slot_date r = getActualDate e dayIndex (pageIndex s)))
                  (barber_slots s)
          \<and> storedFlag (toggleDayOff e dayIndex s) (getActualDate e dayIndex (pageIndex s)) = None
          \<and> isOff (weekSchedule (toggleDayOff e dayIndex s) ! dayIndex)
          \<and> slots (weekSchedule (toggleDayOff e dayIndex s) ! dayIndex) = [])
       \<and> (isOff (weekSchedule s ! dayIndex) \<longrightarrow>
            barber_slots (toggleDayOff e dayIndex s) = barber_slots s
          \<and> next_id (toggleDayOff e dayIndex s) = next_id s
          \<and> storedFlag (toggleDayOff e dayIndex s) (getActualDate e dayIndex (pageIndex s))
              = Some (JBool True)
          \<and> \<not> isOff (weekSchedule (toggleDayOff e dayIndex s) ! dayIndex)
          \<and> slots (weekSchedule (toggleDayOff e dayIndex s) ! dayIndex)
              = slots (weekSchedule s ! dayIndex))
       \<and> (\<not> isOff (weekSchedule s ! dayIndex) \<longrightarrow>
            isOff (weekSchedule (toggleDayOff e dayIndex (toggleDayOff e dayIndex s)) ! dayIndex)
              = isOff (weekSchedule s ! dayIndex)
          \<and> storedFlag (toggleDayOff e dayIndex (toggleDayOff e dayIndex s))
                (getActualDate e dayIndex (pageIndex s)) = Some (JBool True)
          \<and> slots (weekSchedule (toggleDayOff e dayIndex (toggleDayOff e dayIndex s)) ! dayIndex) = []
          \<and> filter (\<lambda>r. Some (barber_id r) = barberId s
                         \<and> slot_date r = getActualDate e dayIndex (pageIndex s))
                (barber_slots (toggleDayOff e dayIndex (toggleDayOff e dayIndex s))) = [])"
proof -
  let ?d = "getActualDate e dayIndex (pageIndex s)"
  let ?s1 = "toggleDayOff e dayIndex s"
  let ?s2 = "toggleDayOff e dayIndex ?s1"
  have off: "\<not> isOff (weekSchedule s ! dayIndex) \<longrightarrow>
            barber_slots ?s1
              = filter (\<lambda>r. \<not> (Some (barber_id r) = barberId s \<and> slot_date r = ?d)) (barber_slots s)
          \<and> storedFlag ?s1 ?d = None
          \<and> isOff (weekSchedule ?s1 ! dayIndex)
          \<and> slots (weekSchedule ?s1 ! dayIndex) = []"
    using toggle_off_effect [OF i _ tok acc] by simp
  have on: "isOff (weekSchedule s ! dayIndex) \<longrightarrow>
            barber_slots ?s1 = barber_slots s \<and> next_id ?s1 = next_id s
          \<and> storedFlag ?s1 ?d = Some (JBool True)
          \<and> \<not> isOff (weekSchedule ?s1 ! dayIndex)
          \<and> slots (weekSchedule ?s1 ! dayIndex) = slots (weekSchedule s ! dayIndex)"
    using toggle_on_effect [OF i _ tok acc] by simp
  have both: "\<not> isOff (weekSchedule s ! dayIndex) \<longrightarrow>
            isOff (weekSchedule ?s2 ! dayIndex) = isOff (weekSchedule s ! dayIndex)
          \<and> storedFlag ?s2 ?d = Some (JBool True)
          \<and> slots (weekSchedule ?s2 ! dayIndex) = []
          \<and> filter (\<lambda>r. Some (barber_id r) = barberId s \<and> slot_date r = ?d) (barber_slots ?s2) = []"
  proof
    assume w: "\<not> isOff (weekSchedule s ! dayIndex)"
    note o = toggle_off_effect [OF i w tok acc]
    have i1: "dayIndex < length (weekSchedule ?s1)" using i o(4) by simp
    have off1: "isOff (weekSchedule ?s1 ! dayIndex)" using o(3) by simp
    note n = toggle_on_effect [OF i1 off1 tok acc]
    have d1: "getActualDate e dayIndex (pageIndex ?s1) = ?d" using o(6) by simp
    have a: "isOff (weekSchedule ?s2 ! dayIndex) = isOff (weekSchedule s ! dayIndex)"
      using n(4) w by simp
    have b: "storedFlag ?s2 ?d = Some (JBool True)" using n(3) d1 by simp
    have c: "slots (weekSchedule ?s2 ! dayIndex) = []" using n(4) o(3) by simp
    have "barber_slots ?s2
          = filter (\<lambda>r. \<not> (Some (barber_id r) = barberId s \<and> slot_date r = ?d)) (barber_slots s)"
      using n(1) o(1) by simp
    then have d: "filter (\<lambda>r. Some (barber_id r) = barberId s \<and> slot_date r = ?d) (barber_slots ?s2) = []"
      by (simp add: filter_empty_conv)
    show "isOff (weekSchedule ?s2 ! dayIndex) = isOff (weekSchedule s ! dayIndex)
          \<and> storedFlag ?s2 ?d = Some (JBool True)
          \<and> slots (weekSchedule ?s2 ! dayIndex) = []
          \<and> filter (\<lambda>r. Some (barber_id r) = barberId s \<and> slot_date r = ?d) (barber_slots ?s2) = []"
      using a b c d by (intro conjI)
  qed
  show ?thesis using off on both by (intro conjI)
qed

theorem toggleDayOff_effects_witness:
  "0 < length (weekSchedule (workingExample [exampleRow ''b'' 100 ''11:00:00'' False]))
   \<and> env_sessionToken exampleEnv = Some ''b1''
   \<and> \<not> isOff (weekSchedule (workingExample [exampleRow ''b'' 100 ''11:00:00'' False]) ! 0)
   \<and> map row_id (barber_slots (workingExample [exampleRow ''b'' 100 ''11:00:00'' False])) = [''b'']
   \<and> barber_slots (toggleDayOff exampleEnv 0 (workingExample [exampleRow ''b'' 100 ''11:00:00'' False])) = []
   \<and> storedFlag (toggleDayOff exampleEnv 0 (workingExample [exampleRow ''b'' 100 ''11:00:00'' False])) 100 = None
   \<and> storedFlag (toggleDayOff exampleEnv 0 (toggleDayOff exampleEnv 0
        (workingExample [exampleRow ''b'' 100 ''11:00:00'' False]))) 100 = Some (JBool True)
   \<and> slots (weekSchedule (toggleDayOff exampleEnv 0 (toggleDayOff exampleEnv 0
        (workingExample [exampleRow ''b'' 100 ''11:00:00'' False]))) ! 0) = []
   \<and> isOff (weekSchedule (loadedExample [exampleRow ''b'' 100 ''11:00:00'' False] 0) ! 0)
   \<and> barber_slots (toggleDayOff exampleEnv 0 (loadedExample [exampleRow ''b'' 100 ''11:00:00'' False] 0))
       = barber_slots (loadedExample [exampleRow ''b'' 100 ''11:00:00'' False] 0)"
proof -
  let ?W = "workingExample [exampleRow ''b'' 100 ''11:00:00'' False]"
  let ?L = "loadedExample [exampleRow ''b'' 100 ''11:00:00'' False] 0"
  have tok: "env_sessionToken exampleEnv = Some ''b1''" by (simp add: exampleEnv_def)
  have iw: "0 < length (weekSchedule ?W)" by code_simp
  have il: "0 < length (weekSchedule ?L)" by code_simp
  have "isOff (weekSchedule ?W ! 0) = False" by code_simp
  then have w: "\<not> isOff (weekSchedule ?W ! 0)" by simp
  have l: "isOff (weekSchedule ?L ! 0)" by code_simp
  have rows: "barber_slots ?W = [exampleRow ''b'' 100 ''11:00:00'' False]" by code_simp
  have ids: "map row_id (barber_slots ?W) = [''b'']" by code_simp
  have b: "barberId ?W = Some ''b1''" by code_simp
  have d: "getActualDate exampleEnv 0 (pageIndex ?W) = 100" by code_simp
  note W = toggleDayOff_effects [OF iw tok exampleEnv_accepts]
  note L = toggleDayOff_effects [OF il tok exampleEnv_accepts]
  have "barber_slots (toggleDayOff exampleEnv 0 ?W)
        = filter (\<lambda>r. \<not> (Some (barber_id r) = barberId ?W
                        \<and> slot_date r = getActualDate exampleEnv 0 (pageIndex ?W)))
            (barber_slots ?W)"
    using W w by blast
  then have r1: "barber_slots (toggleDayOff exampleEnv 0 ?W) = []"
    unfolding rows b d by (simp add: exampleRow_def)
  have "storedFlag (toggleDayOff exampleEnv 0 ?W) (getActualDate exampleEnv 0 (pageIndex ?W)) = None"
    using W w by blast
  then have r2: "storedFlag (toggleDayOff exampleEnv 0 ?W) 100 = None"
    unfolding d .
  have "storedFlag (toggleDayOff exampleEnv 0 (toggleDayOff exampleEnv 0 ?W))
          (getActualDate exampleEnv 0 (pageIndex ?W)) = Some (JBool True)"
    using W w by blast
  then have r3: "storedFlag (toggleDayOff exampleEnv 0 (toggleDayOff exampleEnv 0 ?W)) 100 = Some (JBool True)"
    unfolding d .
  have r4: "slots (weekSchedule (toggleDayOff exampleEnv 0 (toggleDayOff exampleEnv 0 ?W)) ! 0) = []"
    using W w by blast
  have r5: "barber_slots (toggleDayOff exampleEnv 0 ?L) = barber_slots ?L"
    using L l by blast
  show ?thesis using iw tok w ids r1 r2 r3 r4 l r5 by (intro conjI)
qed

lemma example_working_day:
  "map row_id (barber_slots (workingExample [exampleRow ''b'' 100 ''11:00:00'' False])) = [''b'']"
  "storedFlag (workingExample [exampleRow ''b'' 100 ''11:00:00'' False]) 100 = Some (JBool True)"
  "isOff (weekSchedule (workingExample [exampleRow ''b'' 100 ''11:00:00'' False]) ! 0) = False"
  by code_simp+

text \<open>
  Against C9 as stated: \<open>toggleDayOff\<close> does not learn whether the working-day object was
  written. Without a session token, and likewise when the store refuses the write, toggling
  off a working day deletes its slots, shows the day off and reports success, and the
  stored flag of the date is still \<open>true\<close>.
\<close>

theorem toggleDayOff_flag_counterexample:
  "map row_id (barber_slots (workingExample [exampleRow ''b'' 100 ''11:00:00'' False])) = [''b'']
   \<and> storedFlag (workingExample [exampleRow ''b'' 100 ''11:00:00'' False]) 100 = Some (JBool True)
   \<and> \<not> isOff (weekSchedule (workingExample [exampleRow ''b'' 100 ''11:00:00'' False]) ! 0)
   \<and> barber_slots (toggleDayOff noTokenEnv 0 (workingExample [exampleRow ''b'' 100 ''11:00:00'' False])) = []
   \<and> isOff (weekSchedule
        (toggleDayOff noTokenEnv 0 (workingExample [exampleRow ''b'' 100 ''11:00:00'' False])) ! 0)
   \<and> last (trace (toggleDayOff noTokenEnv 0 (workingExample [exampleRow ''b'' 100 ''11:00:00'' False])))
       = ToastSuccess
   \<and> storedFlag (toggleDayOff noTokenEnv 0 (workingExample [exampleRow ''b'' 100 ''11:00:00'' False])) 100
       = Some (JBool True)
   \<and> barber_slots (toggleDayOff noPutEnv 0 (workingExample [exampleRow ''b'' 100 ''11:00:00'' False])) = []
   \<and> last (trace (toggleDayOff noPutEnv 0 (workingExample [exampleRow ''b'' 100 ''11:00:00'' False])))
       = ToastSuccess
   \<and> storedFlag (toggleDayOff noPutEnv 0 (workingExample [exampleRow ''b'' 100 ''11:00:00'' False])) 100
       = Some (JBool True)"
proof -
  let ?W = "workingExample [exampleRow ''b'' 100 ''11:00:00'' False]"
  have w: "\<not> isOff (weekSchedule ?W ! 0)" by (simp add: example_working_day(3))
  have n1: "barber_slots (toggleDayOff noTokenEnv 0 ?W) = []" by code_simp
  have n2: "isOff (weekSchedule (toggleDayOff noTokenEnv 0 ?W) ! 0)" by code_simp
  have n3: "last (trace (toggleDayOff noTokenEnv 0 ?W)) = ToastSuccess" by code_simp
  have n4: "storedFlag (toggleDayOff noTokenEnv 0 ?W) 100 = Some (JBool True)" by code_simp
  have p1: "barber_slots (toggleDayOff noPutEnv 0 ?W) = []" by code_simp
  have p3: "last (trace (toggleDayOff noPutEnv 0 ?W)) = ToastSuccess" by code_simp
  have p4: "storedFlag (toggleDayOff noPutEnv 0 ?W) 100 = Some (JBool True)" by code_simp
  show ?thesis using example_working_day(1,2) w n1 n2 n3 n4 p1 p3 p4 by (intro conjI)
qed

section \<open>Batch clear\<close>

lemma clearDays_accepted:
  assumes tok: "env_sessionToken e = Some tok" and acc: "\<And>r. env_accepts e r"
  shows "\<exists>s'. clearDays e idxs s = Done s'
     \<and> barber_slots s' =
         filter (\<lambda>r. \<not> (Some (barber_id r) = barberId s
                        \<and> slot_date r \<in> set (clearedDates e (pageIndex s) idxs)))
           (barber_slots s)
     \<and> (\<forall>d. storedFlag s' d =
           (if d \<in> set (clearedDates e (pageIndex s) idxs) then None else storedFlag s d))
     \<and> barberId s' = barberId s \<and> pageIndex s' = pageIndex s
     \<and> weekSchedule s' = weekSchedule s \<and> refetches s' = refetches s"
proof (induction idxs arbitrary: s)
  case Nil
  then show ?case by (simp add: clearedDates_def)
next
  case (Cons k idxs)
  let ?d = "getActualDate e k (pageIndex s)"
  show ?case
  proof (cases "?d < env_today e")
    case True
    then have "clearDays e (k # idxs) s = clearDays e idxs s" by (simp add: Let_def)
    moreover have "clearedDates e (pageIndex s) (k # idxs) = clearedDates e (pageIndex s) idxs"
      using True by (simp add: clearedDates_def)
    ultimately show ?thesis using Cons.IH [of s] by simp
  next
    case False
    let ?r = "DeleteDay (barberId s) ?d"
    let ?s1 = "serve ?r (emit (Request ?r) s)"
    let ?s2 = "updateWorkingDayState e ?d False ?s1"
    have step: "clearDays e (k # idxs) s = clearDays e idxs ?s2"
      using False acc by (simp add: Let_def call_def)
    have cd: "clearedDates e (pageIndex s) (k # idxs) = ?d # clearedDates e (pageIndex s) idxs"
      using False by (simp add: clearedDates_def)
    have s1: "barberId ?s1 = barberId s" "pageIndex ?s1 = pageIndex s"
      "weekSchedule ?s1 = weekSchedule s" "kv ?s1 = kv s" "refetches ?s1 = refetches s"
      "barber_slots ?s1 = filter (\<lambda>r. \<not> (Some (barber_id r) = barberId s \<and> slot_date r = ?d)) (barber_slots s)"
      by (simp_all add: serve_client serve_DeleteDay emit_fields refetches_def isRefetch_def)
    have s2: "barberId ?s2 = barberId s" "pageIndex ?s2 = pageIndex s"
      "weekSchedule ?s2 = weekSchedule s" "refetches ?s2 = refetches s"
      "barber_slots ?s2 = filter (\<lambda>r. \<not> (Some (barber_id r) = barberId s \<and> slot_date r = ?d)) (barber_slots s)"
      by (simp_all add: updateWorkingDayState_fields refetches_updateWorkingDayState s1)
    have f1: "\<And>d. storedFlag ?s1 d = storedFlag s d"
      by (rule storedFlag_cong) (simp_all add: s1)
    have f2: "\<And>d. storedFlag ?s2 d = (if d = ?d then None else storedFlag s d)"
      using updateWorkingDayState_flag [OF tok acc, of ?d False ?s1] f1 by simp
    from Cons.IH [of ?s2] obtain s' where
      run: "clearDays e idxs ?s2 = Done s'"
      and rows: "barber_slots s' =
         filter (\<lambda>r. \<not> (Some (barber_id r) = barberId ?s2
                        \<and> slot_date r \<in> set (clearedDates e (pageIndex ?s2) idxs)))
           (barber_slots ?s2)"
      and flags: "\<forall>d. storedFlag s' d =
           (if d \<in> set (clearedDates e (pageIndex ?s2) idxs) then None else storedFlag ?s2 d)"
      and rest: "barberId s' = barberId ?s2" "pageIndex s' = pageIndex ?s2"
        "weekSchedule s' = weekSchedule ?s2" "refetches s' = refetches ?s2"
      by blast
    have rows': "barber_slots s' =
         filter (\<lambda>r. \<not> (Some (barber_id r) = barberId s
                        \<and> slot_date r \<in> set (clearedDates e (pageIndex s) (k # idxs))))
           (barber_slots s)"
      unfolding rows s2 cd by (auto intro: filter_cong)
    have flags': "\<forall>d. storedFlag s' d =
           (if d \<in> set (clearedDates e (pageIndex s) (k # idxs)) then None else storedFlag s d)"
      using flags unfolding s2 cd f2 by simp
    show ?thesis
      unfolding step using run rows' flags' rest s2 by simp
  qed
qed

lemma clearDays_any:
  "refetches (outcomeState (clearDays e idxs s)) = refetches s
   \<and> barberId (outcomeState (clearDays e idxs s)) = barberId s
   \<and> pageIndex (outcomeState (clearDays e idxs s)) = pageIndex s"
proof (induction idxs arbitrary: s)
  case Nil
  then show ?case by simp
next
  case (Cons k idxs)
  let ?d = "getActualDate e k (pageIndex s)"
  let ?r = "DeleteDay (barberId s) ?d"
  show ?case
  proof (cases "?d < env_today e")
    case True
    then show ?thesis using Cons.IH [of s] by (simp add: Let_def)
  next
    case False
    show ?thesis
    proof (cases "env_accepts e ?r")
      case r: False
      then have "clearDays e (k # idxs) s = Thrown (emit (Request ?r) s)"
        using False by (simp add: Let_def call_def)
      then show ?thesis by (simp add: refetches_emit isRefetch_def emit_fields)
    next
      case r: True
      let ?s2 = "updateWorkingDayState e ?d False (serve ?r (emit (Request ?r) s))"
      have step: "clearDays e (k # idxs) s = clearDays e idxs ?s2"
        using False r by (simp add: Let_def call_def)
      have s1: "refetches (serve ?r (emit (Request ?r) s)) = refetches s"
        by (simp add: serve_client emit_fields refetches_def isRefetch_def)
      have "refetches ?s2 = refetches s" "barberId ?s2 = barberId s" "pageIndex ?s2 = pageIndex s"
        by (simp_all add: refetches_updateWorkingDayState updateWorkingDayState_fields
            serve_client emit_fields s1)
      then show ?thesis unfolding step using Cons.IH [of ?s2] by simp
    qed
  qed
qed

lemma handleQuickSetupClear_cases:
  assumes b: "barberId s = Some b" and conf: "env_confirm e"
  shows "handleQuickSetupClear e s =
     (let s1 = s\<lparr>isQuickSetupProcessing := True,
                 weekSchedule :=
                   map (\<lambda>(dayIdx, d).
                          if getActualDate e dayIdx (pageIndex s) < env_today e then d
                          else d\<lparr>slots := []\<rparr>)
                     (enumerate 0 (weekSchedule s))\<rparr>
      in (loadSlots e
            (emit (case clearDays e [0..<DAYS_PER_PAGE] s1 of Done s2 \<Rightarrow> ToastSuccess | Thrown s2 \<Rightarrow> ToastError)
               (outcomeState (clearDays e [0..<DAYS_PER_PAGE] s1))))
         \<lparr>isQuickSetupProcessing := False\<rparr>)"
  using b conf by (simp add: handleQuickSetupClear_def Let_def split: outcome.splits)

lemma handleQuickSetupClear_refetches:
  assumes b: "barberId s = Some b" and tok: "env_sessionToken e = Some tok" and conf: "env_confirm e"
  shows "refetches (handleQuickSetupClear e s) = refetches s + 1"
proof -
  let ?s1 = "s\<lparr>isQuickSetupProcessing := True,
                 weekSchedule :=
                   map (\<lambda>(dayIdx, d).
                          if getActualDate e dayIdx (pageIndex s) < env_today e then d
                          else d\<lparr>slots := []\<rparr>)
                     (enumerate 0 (weekSchedule s))\<rparr>"
  let ?o = "clearDays e [0..<DAYS_PER_PAGE] ?s1"
  let ?ev = "case ?o of Done s2 \<Rightarrow> ToastSuccess | Thrown s2 \<Rightarrow> ToastError"
  have s1: "refetches ?s1 = refetches s" "barberId ?s1 = Some b"
    using b by (simp_all add: refetches_def)
  have o: "refetches (outcomeState ?o) = refetches s" "barberId (outcomeState ?o) = Some b"
    using clearDays_any [of e "[0..<DAYS_PER_PAGE]" ?s1] s1 by simp_all
  have ev: "\<not> isRefetch ?ev" by (simp add: isRefetch_def split: outcome.splits)
  have em: "refetches (emit ?ev (outcomeState ?o)) = refetches s"
    "barberId (emit ?ev (outcomeState ?o)) = Some b"
    using o ev by (simp_all add: refetches_emit emit_fields)
  have "refetches (loadSlots e (emit ?ev (outcomeState ?o))) = refetches s + 1"
    using refetches_loadSlots [OF em(2) tok] em(1) by simp
  then show ?thesis
    unfolding handleQuickSetupClear_cases [OF b conf] Let_def by (simp add: refetches_def)
qed

lemma page_dates:
  "d \<in> set (map (\<lambda>k. getActualDate e k p) [0..<DAYS_PER_PAGE])
   \<longleftrightarrow> getPageStartDate e p \<le> d \<and> d \<le> getPageStartDate e p + 7"
proof
  assume "d \<in> set (map (\<lambda>k. getActualDate e k p) [0..<DAYS_PER_PAGE])"
  then show "getPageStartDate e p \<le> d \<and> d \<le> getPageStartDate e p + 7"
    by (auto simp: getActualDate_def DAYS_PER_PAGE_def)
next
  assume a: "getPageStartDate e p \<le> d \<and> d \<le> getPageStartDate e p + 7"
  then have "nat (d - getPageStartDate e p) < 8" by linarith
  then have "nat (d - getPageStartDate e p) < DAYS_PER_PAGE"
    and "d = getActualDate e (nat (d - getPageStartDate e p)) p"
    using a by (simp_all add: getActualDate_def DAYS_PER_PAGE_def)
  then show "d \<in> set (map (\<lambda>k. getActualDate e k p) [0..<DAYS_PER_PAGE])"
    by (metis (no_types, lifting) atLeastLessThan_iff imageI le0 set_map set_upt)
qed

lemma clearedDates_page:
  "d \<in> set (clearedDates e p [0..<DAYS_PER_PAGE])
   \<longleftrightarrow> getPageStartDate e p \<le> d \<and> d \<le> getPageStartDate e p + 7 \<and> env_today e \<le> d"
  using page_dates [of d e p] by (auto simp: clearedDates_def simp del: set_map)

lemma handleQuickSetupClear_store:
  assumes b: "barberId s = Some b" and tok: "env_sessionToken e = Some tok"
    and acc: "\<And>r. env_accepts e r" and conf: "env_confirm e"
  shows "barber_slots (handleQuickSetupClear e s) =
           filter (\<lambda>r. \<not> (barber_id r = b
                          \<and> getPageStartDate e (pageIndex s) \<le> slot_date r
                          \<and> slot_date r \<le> getPageStartDate e (pageIndex s) + 7
                          \<and> env_today e \<le> slot_date r))
             (barber_slots s)"
    and "storedFlag (handleQuickSetupClear e s) d =
           (if getPageStartDate e (pageIndex s) \<le> d \<and> d \<le> getPageStartDate e (pageIndex s) + 7
               \<and> env_today e \<le> d
            then None else storedFlag s d)"
proof -
  let ?s1 = "s\<lparr>isQuickSetupProcessing := True,
                 weekSchedule :=
                   map (\<lambda>(dayIdx, d).
                          if getActualDate e dayIdx (pageIndex s) < env_today e then d
                          else d\<lparr>slots := []\<rparr>)
                     (enumerate 0 (weekSchedule s))\<rparr>"
  from clearDays_accepted [OF tok acc, of "[0..<DAYS_PER_PAGE]" ?s1] obtain s2 where
    run: "clearDays e [0..<DAYS_PER_PAGE] ?s1 = Done s2"
    and rows: "barber_slots s2 =
         filter (\<lambda>r. \<not> (Some (barber_id r) = barberId ?s1
                        \<and> slot_date r \<in> set (clearedDates e (pageIndex ?s1) [0..<DAYS_PER_PAGE])))
           (barber_slots ?s1)"
    and flags: "\<forall>d. storedFlag s2 d =
           (if d \<in> set (clearedDates e (pageIndex ?s1) [0..<DAYS_PER_PAGE]) then None
            else storedFlag ?s1 d)"
    and rest: "barberId s2 = barberId ?s1"
    by blast
  have res: "handleQuickSetupClear e s
             = (loadSlots e (emit ToastSuccess s2))\<lparr>isQuickSetupProcessing := False\<rparr>"
    unfolding handleQuickSetupClear_cases [OF b conf] Let_def run by simp
  have f1: "\<And>d. storedFlag ?s1 d = storedFlag s d"
    by (rule storedFlag_cong) simp_all
  show "barber_slots (handleQuickSetupClear e s) =
           filter (\<lambda>r. \<not> (barber_id r = b
                          \<and> getPageStartDate e (pageIndex s) \<le> slot_date r
                          \<and> slot_date r \<le> getPageStartDate e (pageIndex s) + 7
                          \<and> env_today e \<le> slot_date r))
             (barber_slots s)"
    unfolding res using rows b
    by (simp add: loadSlots_store emit_fields clearedDates_page cong: filter_cong)
  have "storedFlag (handleQuickSetupClear e s) d = storedFlag s2 d"
    by (rule storedFlag_cong) (simp_all add: res loadSlots_store emit_fields)
  then show "storedFlag (handleQuickSetupClear e s) d =
           (if getPageStartDate e (pageIndex s) \<le> d \<and> d \<le> getPageStartDate e (pageIndex s) + 7
               \<and> env_today e \<le> d
            then None else storedFlag s d)"
    using flags f1 by (simp add: clearedDates_page)
qed

text \<open>
  C4 (as amended). For a component that has its barber, with a session token, a confirmed
  batch clear whose requests the store accepts deletes the barber's slots whose date is on
  the displayed page (the eight days from the page start) and not before today, and removes
  the working flag of those dates; the slots and flags of every other date, in particular of
  the dates before today, stay as they were.
\<close>

theorem clear_acts_on_displayed_page:
  assumes b: "barberId s = Some b" and tok: "env_sessionToken e = Some tok"
    and acc: "\<And>r. env_accepts e r" and conf: "env_confirm e"
  shows "barber_slots (handleQuickSetupClear e s) =
           filter (\<lambda>r. \<not> (barber_id r = b
                          \<and> getPageStartDate e (pageIndex s) \<le> slot_date r
                          \<and> slot_date r \<le> getPageStartDate e (pageIndex s) + 7
                          \<and> env_today e \<le> slot_date r))
             (barber_slots s)
       \<and> storedFlag (handleQuickSetupClear e s) d =
           (if getPageStartDate e (pageIndex s) \<le> d \<and> d \<le> getPageStartDate e (pageIndex s) + 7
               \<and> env_today e \<le> d
            then None else storedFlag s d)
       \<and> filter (\<lambda>r. slot_date r < env_today e) (barber_slots (handleQuickSetupClear e s))
           = filter (\<lambda>r. slot_date r < env_today e) (barber_slots s)
       \<and> (d < env_today e \<longrightarrow> storedFlag (handleQuickSetupClear e s) d = storedFlag s d)"
proof -
  note st = handleQuickSetupClear_store [OF b tok acc conf]
  have past: "filter (\<lambda>r. slot_date r < env_today e) (barber_slots (handleQuickSetupClear e s))
           = filter (\<lambda>r. slot_date r < env_today e) (barber_slots s)"
    unfolding st(1) by (auto intro: filter_cong)
  have flag: "d < env_today e \<longrightarrow> storedFlag (handleQuickSetupClear e s) d = storedFlag s d"
    unfolding st(2) by simp
  show ?thesis using st(1) st(2) [of d] past flag by (intro conjI)
qed

lemma example_two_rows:
  "barberId (workingExample [exampleRow ''a'' 100 ''10:00:00'' True, exampleRow ''c'' 108 ''09:00:00'' False])
     = Some ''b1''"
  "pageIndex (workingExample [exampleRow ''a'' 100 ''10:00:00'' True, exampleRow ''c'' 108 ''09:00:00'' False])
     = 0"
  "barber_slots (workingExample [exampleRow ''a'' 100 ''10:00:00'' True, exampleRow ''c'' 108 ''09:00:00'' False])
     = [exampleRow ''a'' 100 ''10:00:00'' True, exampleRow ''c'' 108 ''09:00:00'' False]"
  "storedFlag (workingExample [exampleRow ''a'' 100 ''10:00:00'' True, exampleRow ''c'' 108 ''09:00:00'' False]) 100
     = Some (JBool True)"
  by code_simp+

lemma exampleEnv_fields:
  "env_sessionToken exampleEnv = Some ''b1''" "env_confirm exampleEnv" "env_today exampleEnv = 100"
  "getPageStartDate exampleEnv 0 = 100"
  by (simp_all add: exampleEnv_def getPageStartDate_def)

theorem clear_acts_on_displayed_page_witness:
  "barberId (workingExample [exampleRow ''a'' 100 ''10:00:00'' True, exampleRow ''c'' 108 ''09:00:00'' False])
     = Some ''b1''
   \<and> env_sessionToken exampleEnv = Some ''b1'' \<and> env_confirm exampleEnv
   \<and> storedFlag (workingExample [exampleRow ''a'' 100 ''10:00:00'' True, exampleRow ''c'' 108 ''09:00:00'' False]) 100
       = Some (JBool True)
   \<and> map row_id (barber_slots (handleQuickSetupClear exampleEnv
        (workingExample [exampleRow ''a'' 100 ''10:00:00'' True, exampleRow ''c'' 108 ''09:00:00'' False])))
       = [''c'']
   \<and> storedFlag (handleQuickSetupClear exampleEnv
        (workingExample [exampleRow ''a'' 100 ''10:00:00'' True, exampleRow ''c'' 108 ''09:00:00'' False])) 100
       = None"
proof -
  let ?W = "workingExample [exampleRow ''a'' 100 ''10:00:00'' True, exampleRow ''c'' 108 ''09:00:00'' False]"
  note t = clear_acts_on_displayed_page [OF example_two_rows(1) exampleEnv_fields(1)
      exampleEnv_accepts exampleEnv_fields(2), of 100]
  have rows: "barber_slots (handleQuickSetupClear exampleEnv ?W) =
           filter (\<lambda>r. \<not> (barber_id r = ''b1''
                          \<and> getPageStartDate exampleEnv (pageIndex ?W) \<le> slot_date r
                          \<and> slot_date r \<le> getPageStartDate exampleEnv (pageIndex ?W) + 7
                          \<and> env_today exampleEnv \<le> slot_date r))
             (barber_slots ?W)"
    using t by blast
  have r: "map row_id (barber_slots (handleQuickSetupClear exampleEnv ?W)) = [''c'']"
    unfolding rows example_two_rows exampleEnv_fields by (simp add: exampleRow_def)
  have "storedFlag (handleQuickSetupClear exampleEnv ?W) 100 =
           (if getPageStartDate exampleEnv (pageIndex ?W) \<le> 100
               \<and> 100 \<le> getPageStartDate exampleEnv (pageIndex ?W) + 7
               \<and> env_today exampleEnv \<le> 100
            then None else storedFlag ?W 100)"
    using t by blast
  then have f: "storedFlag (handleQuickSetupClear exampleEnv ?W) 100 = None"
    unfolding example_two_rows exampleEnv_fields by simp
  show ?thesis using example_two_rows(1,4) exampleEnv_fields(1,2) r f by (intro conjI)
qed

text \<open>
  Against C4 as stated: cleared from page 0, a slot on day 108 (after today, on the next
  page) is still in the store.
\<close>

theorem clear_every_future_slot_counterexample:
  "env_today exampleEnv = 100
   \<and> map slot_date (barber_slots
        (workingExample [exampleRow ''a'' 100 ''10:00:00'' True, exampleRow ''c'' 108 ''09:00:00'' False]))
       = [100, 108]
   \<and> map slot_date (barber_slots (handleQuickSetupClear exampleEnv
        (workingExample [exampleRow ''a'' 100 ''10:00:00'' True, exampleRow ''c'' 108 ''09:00:00'' False])))
       = [108]"
proof -
  let ?W = "workingExample [exampleRow ''a'' 100 ''10:00:00'' True, exampleRow ''c'' 108 ''09:00:00'' False]"
  have before: "map slot_date (barber_slots ?W) = [100, 108]"
    unfolding example_two_rows by (simp add: exampleRow_def)
  have after: "map slot_date (barber_slots (handleQuickSetupClear exampleEnv ?W)) = [108]"
    unfolding handleQuickSetupClear_store(1) [OF example_two_rows(1) exampleEnv_fields(1)
        exampleEnv_accepts exampleEnv_fields(2)] example_two_rows exampleEnv_fields
    by (simp add: exampleRow_def)
  show ?thesis using exampleEnv_fields(3) before after by (intro conjI)
qed

section \<open>Refetches after a mutation\<close>

lemma generateTimeSlots_returns:
  "0 < d \<Longrightarrow> \<exists>slotTimes. generateTimeSlots fromTime toTime d = Some slotTimes"
  by (simp add: generateTimeSlots_def generateLoop_eq split: option.splits)

lemma executeQuickSetup_returns:
  assumes "0 < quickSetupDuration s"
  shows "\<exists>s'. executeQuickSetup e s = Some s'"
proof (cases "env_sessionToken e")
  case None
  then show ?thesis by (simp add: executeQuickSetup_no_token)
next
  case (Some tok)
  from generateTimeSlots_returns [OF assms] obtain slotTimes where
    "generateTimeSlots (quickSetupFromTime s) (quickSetupToTime s) (quickSetupDuration s) = Some slotTimes"
    by blast
  from executeQuickSetup_cases [OF Some this] show ?thesis by (simp add: Let_def)
qed

text \<open>
  C8 (as amended). With a barber and a session token: a confirmed batch clear, and a batch
  setup with a positive duration (which then returns), are followed by exactly one refetch,
  whether the store accepts or refuses their requests; a single-slot add and a single-slot
  delete are followed by exactly one refetch when the store accepts the request and by none
  when it refuses it or the add is rejected beforehand; a single-slot edit is followed by
  no refetch at all.
\<close>

theorem refetch_after_mutation:
  assumes b: "barberId s = Some b" and tok: "env_sessionToken e = Some tok"
  shows "(env_confirm e \<longrightarrow> refetches (handleQuickSetupClear e s) = refetches s + 1)
       \<and> (0 < quickSetupDuration s \<longrightarrow>
            (\<exists>s'. executeQuickSetup e s = Some s' \<and> refetches s' = refetches s + 1))
       \<and> refetches (instantAddTimeSlot e dayIndex slotTime s) =
            refetches s +
            (if \<not> addRejected e dayIndex slotTime s
                \<and> env_accepts e (CreateSlot tok
                      \<lparr>slot_date = getActualDate e dayIndex (pageIndex s),
                       start_time = normalizeTime slotTime,
                       end_time = normalizeTime (calculateEndTime slotTime),
                       is_available = True\<rparr>)
             then 1 else 0)
       \<and> refetches (removeTimeSlot e dayIndex slotId s) =
            refetches s + (if env_accepts e (DeleteSlot tok slotId) then 1 else 0)
       \<and> refetches (saveTimeSlot e s) = refetches s"
proof -
  have clr: "env_confirm e \<longrightarrow> refetches (handleQuickSetupClear e s) = refetches s + 1"
    using handleQuickSetupClear_refetches [OF b tok] by blast
  have qs: "0 < quickSetupDuration s \<longrightarrow>
            (\<exists>s'. executeQuickSetup e s = Some s' \<and> refetches s' = refetches s + 1)"
    using executeQuickSetup_returns [of s e] executeQuickSetup_refetches [OF b tok] by blast
  show ?thesis
    using clr qs refetches_instantAddTimeSlot [OF b tok] removeTimeSlot_refetches [OF b tok]
      refetches_saveTimeSlot
    by (intro conjI)
qed

lemma example_one_row:
  "barberId (loadedExample [exampleRow ''b'' 100 ''10:00:00'' False] 0) = Some ''b1''"
  "quickSetupDuration (loadedExample [exampleRow ''b'' 100 ''10:00:00'' False] 0) = 30"
  by code_simp+

lemma refusingEnv_fields:
  "env_sessionToken refusingEnv = Some ''b1''" "\<not> env_accepts refusingEnv r"
  by (simp_all add: refusingEnv_def exampleEnv_def)

theorem refetch_after_mutation_witness:
  "barberId (loadedExample [exampleRow ''b'' 100 ''10:00:00'' False] 0) = Some ''b1''
   \<and> env_sessionToken exampleEnv = Some ''b1'' \<and> env_confirm exampleEnv
   \<and> refetches (handleQuickSetupClear exampleEnv (loadedExample [exampleRow ''b'' 100 ''10:00:00'' False] 0))
       = refetches (loadedExample [exampleRow ''b'' 100 ''10:00:00'' False] 0) + 1
   \<and> 0 < quickSetupDuration (loadedExample [exampleRow ''b'' 100 ''10:00:00'' False] 0)
   \<and> (\<exists>s'. executeQuickSetup exampleEnv (loadedExample [exampleRow ''b'' 100 ''10:00:00'' False] 0) = Some s'
          \<and> refetches s' = refetches (loadedExample [exampleRow ''b'' 100 ''10:00:00'' False] 0) + 1)
   \<and> env_accepts exampleEnv (DeleteSlot ''b1'' ''b'')
   \<and> refetches (removeTimeSlot exampleEnv 0 ''b'' (loadedExample [exampleRow ''b'' 100 ''10:00:00'' False] 0))
       = refetches (loadedExample [exampleRow ''b'' 100 ''10:00:00'' False] 0) + 1
   \<and> env_sessionToken refusingEnv = Some ''b1'' \<and> \<not> env_accepts refusingEnv (DeleteSlot ''b1'' ''b'')
   \<and> refetches (removeTimeSlot refusingEnv 0 ''b'' (loadedExample [exampleRow ''b'' 100 ''10:00:00'' False] 0))
       = refetches (loadedExample [exampleRow ''b'' 100 ''10:00:00'' False] 0)"
proof -
  let ?L = "loadedExample [exampleRow ''b'' 100 ''10:00:00'' False] 0"
  note a = refetch_after_mutation [OF example_one_row(1) exampleEnv_fields(1), of 0 "[]" "''b''"]
  note r = refetch_after_mutation [OF example_one_row(1) refusingEnv_fields(1), of 0 "[]" "''b''"]
  have d: "0 < quickSetupDuration ?L" by (simp add: example_one_row)
  have c1: "refetches (handleQuickSetupClear exampleEnv ?L) = refetches ?L + 1"
    using a exampleEnv_fields(2) by blast
  have c2: "\<exists>s'. executeQuickSetup exampleEnv ?L = Some s' \<and> refetches s' = refetches ?L + 1"
    using a d by blast
  have "refetches (removeTimeSlot exampleEnv 0 ''b'' ?L) =
            refetches ?L + (if env_accepts exampleEnv (DeleteSlot ''b1'' ''b'') then 1 else 0)"
    using a by blast
  then have c3: "refetches (removeTimeSlot exampleEnv 0 ''b'' ?L) = refetches ?L + 1"
    by (simp add: exampleEnv_accepts)
  have "refetches (removeTimeSlot refusingEnv 0 ''b'' ?L) =
            refetches ?L + (if env_accepts refusingEnv (DeleteSlot ''b1'' ''b'') then 1 else 0)"
    using r by blast
  then have c4: "refetches (removeTimeSlot refusingEnv 0 ''b'' ?L) = refetches ?L"
    by (simp add: refusingEnv_fields)
  show ?thesis
    using example_one_row(1) exampleEnv_fields(1,2) c1 d c2 exampleEnv_accepts c3
      refusingEnv_fields c4
    by (intro conjI)
qed

text \<open>
  Against C8 as stated: an accepted edit changes the stored time and no refetch follows; a
  refused delete ends in an error toast and no refetch follows.
\<close>

theorem refetch_after_mutation_counterexample:
  "map start_time (barber_slots (startEditingSlot 0 ''b'' ''11:00''
        (loadedExample [exampleRow ''b'' 100 ''10:00:00'' False] 0))) = [''10:00:00'']
   \<and> map start_time (barber_slots (saveTimeSlot exampleEnv (startEditingSlot 0 ''b'' ''11:00''
        (loadedExample [exampleRow ''b'' 100 ''10:00:00'' False] 0)))) = [''11:00:00'']
   \<and> refetches (saveTimeSlot exampleEnv (startEditingSlot 0 ''b'' ''11:00''
        (loadedExample [exampleRow ''b'' 100 ''10:00:00'' False] 0)))
       = refetches (startEditingSlot 0 ''b'' ''11:00'' (loadedExample [exampleRow ''b'' 100 ''10:00:00'' False] 0))
   \<and> last (trace (removeTimeSlot refusingEnv 0 ''b'' (loadedExample [exampleRow ''b'' 100 ''10:00:00'' False] 0)))
       = ToastError
   \<and> refetches (removeTimeSlot refusingEnv 0 ''b'' (loadedExample [exampleRow ''b'' 100 ''10:00:00'' False] 0))
       = refetches (loadedExample [exampleRow ''b'' 100 ''10:00:00'' False] 0)"
proof -
  let ?L = "loadedExample [exampleRow ''b'' 100 ''10:00:00'' False] 0"
  let ?E = "startEditingSlot 0 ''b'' ''11:00'' ?L"
  have e1: "map start_time (barber_slots ?E) = [''10:00:00'']" by code_simp
  have e2: "map start_time (barber_slots (saveTimeSlot exampleEnv ?E)) = [''11:00:00'']" by code_simp
  have e3: "refetches (saveTimeSlot exampleEnv ?E) = refetches ?E" by (rule refetches_saveTimeSlot)
  have e4: "last (trace (removeTimeSlot refusingEnv 0 ''b'' ?L)) = ToastError" by code_simp
  have e5: "refetches (removeTimeSlot refusingEnv 0 ''b'' ?L) = refetches ?L"
    using removeTimeSlot_refetches [OF example_one_row(1) refusingEnv_fields(1), of 0 "''b''"]
    by (simp add: refusingEnv_fields)
  show ?thesis using e1 e2 e3 e4 e5 by (intro conjI)
qed

section \<open>Duplicate times\<close>

lemma take5_normalized: "isHHMM t \<Longrightarrow> take 5 (normalizeTime t) = t"
  by (simp add: isHHMM_normalizeTime isHHMM_length)

lemma normalizeTime_inj: "isHHMM t \<Longrightarrow> isHHMM t' \<Longrightarrow> (normalizeTime t' = normalizeTime t) = (t' = t)"
  by (simp add: isHHMM_normalizeTime)

lemma toTimeSlot_fields:
  "time (toTimeSlot r) = take 5 (start_time r)" "id' (toTimeSlot r) = row_id r"
  "booked (toTimeSlot r) = is_booked r"
  by (simp_all add: toTimeSlot_def Let_def)

lemma stored_time_matches:
  assumes "isHHMM t" and "\<exists>t'. isHHMM t' \<and> start_time r = normalizeTime t'"
  shows "(time (toTimeSlot r) = t) = (start_time r = normalizeTime t)"
proof -
  from assms(2) obtain t' where t': "isHHMM t'" "start_time r = normalizeTime t'" by blast
  have "time (toTimeSlot r) = t'" by (simp add: toTimeSlot_fields t' take5_normalized)
  then show ?thesis using normalizeTime_inj [OF assms(1) t'(1)] t'(2) by simp
qed

text \<open>
  What \<open>isDuplicateTime\<close> answers on a loaded page, for a time value \<open>HH:MM\<close> and a store whose
  start times are normalized time values: it is true exactly when the store holds a slot
  that the load has put on that day, whose start time is the normalized input and whose id
  is not the excluded one. The seconds the store adds do not matter, and a slot is no
  duplicate of itself. The slots the load puts on a day are those whose day index is the
  index of the day.
\<close>

lemma isDuplicateTime_loaded:
  assumes b: "barberId s = Some b" and tok: "env_sessionToken e = Some tok"
    and acc: "env_accepts e (ListSlots tok (getPageStartDate e (pageIndex s))
                               (getPageStartDate e (pageIndex s) + (int DAYS_PER_PAGE - 1)))"
    and i: "dayIndex < DAYS_PER_PAGE"
    and t: "isHHMM t"
    and stored: "\<forall>r \<in> set (barber_slots s). \<exists>t'. isHHMM t' \<and> start_time r = normalizeTime t'"
  shows "isDuplicateTime (loadSlots e s) dayIndex t excludeSlotId
         = (\<exists>r \<in> set (barber_slots s).
              inRange tok (getPageStartDate e (pageIndex s))
                (getPageStartDate e (pageIndex s) + (int DAYS_PER_PAGE - 1)) r
              \<and> daysDiff e (getPageStartDate e (pageIndex s)) (slot_date r) = int dayIndex
              \<and> start_time r = normalizeTime t \<and> Some (row_id r) \<noteq> excludeSlotId)"
proof -
  let ?ps = "getPageStartDate e (pageIndex s)"
  let ?rows = "filter (\<lambda>r. daysDiff e ?ps (slot_date r) = int dayIndex)
                 (listByDateRange (barber_slots s) tok ?ps (?ps + (int DAYS_PER_PAGE - 1)))"
  have len: "dayIndex < length (weekSchedule (loadSlots e s))"
    using loadSlots_accepted_length [OF b tok acc] i by simp
  have sl: "slots (weekSchedule (loadSlots e s) ! dayIndex) = sort_key sortKey (map toTimeSlot ?rows)"
    by (simp add: loadSlots_accepted_nth [OF b tok acc i])
  have "isDuplicateTime (loadSlots e s) dayIndex t excludeSlotId
        = (\<exists>r \<in> set ?rows. time (toTimeSlot r) = t \<and> Some (id' (toTimeSlot r)) \<noteq> excludeSlotId)"
    using len by (simp add: isDuplicateTime_def sl list_ex_iff)
  also have "\<dots> = (\<exists>r \<in> set ?rows. start_time r = normalizeTime t \<and> Some (row_id r) \<noteq> excludeSlotId)"
  proof (rule bex_cong [OF refl])
    fix r assume "r \<in> set ?rows"
    then have "r \<in> set (barber_slots s)" by (simp add: listByDateRange_def)
    with stored have "\<exists>t'. isHHMM t' \<and> start_time r = normalizeTime t'" by blast
    from stored_time_matches [OF t this]
    show "(time (toTimeSlot r) = t \<and> Some (id' (toTimeSlot r)) \<noteq> excludeSlotId)
          = (start_time r = normalizeTime t \<and> Some (row_id r) \<noteq> excludeSlotId)"
      by (simp add: toTimeSlot_fields(2))
  qed
  also have "\<dots> = (\<exists>r \<in> set (barber_slots s).
              inRange tok ?ps (?ps + (int DAYS_PER_PAGE - 1)) r
              \<and> daysDiff e ?ps (slot_date r) = int dayIndex
              \<and> start_time r = normalizeTime t \<and> Some (row_id r) \<noteq> excludeSlotId)"
    by (auto simp: listByDateRange_def)
  finally show ?thesis .
qed

text \<open>
  On a page whose days all have 24 hours the slots of a day are the stored slots of its date,
  and \<open>isDuplicateTime\<close> is true exactly when the store holds a slot of that date with the
  normalized input as its start time and an id other than the excluded one.
\<close>

lemma isDuplicateTime_loaded_24:
  assumes b: "barberId s = Some b" and tok: "env_sessionToken e = Some tok"
    and acc: "env_accepts e (ListSlots tok (getPageStartDate e (pageIndex s))
                               (getPageStartDate e (pageIndex s) + (int DAYS_PER_PAGE - 1)))"
    and i: "dayIndex < DAYS_PER_PAGE"
    and t: "isHHMM t"
    and stored: "\<forall>r \<in> set (barber_slots s). \<exists>t'. isHHMM t' \<and> start_time r = normalizeTime t'"
    and h: "daysOf24Hours e (getPageStartDate e (pageIndex s))"
  shows "isDuplicateTime (loadSlots e s) dayIndex t excludeSlotId
         = (\<exists>r \<in> set (barber_slots s).
              barber_id r = tok \<and> slot_date r = getActualDate e dayIndex (pageIndex s)
              \<and> start_time r = normalizeTime t \<and> Some (row_id r) \<noteq> excludeSlotId)"
proof -
  let ?ps = "getPageStartDate e (pageIndex s)"
  have col: "\<And>r. inRange tok ?ps (?ps + (int DAYS_PER_PAGE - 1)) r \<Longrightarrow>
               daysDiff e ?ps (slot_date r) = slot_date r - ?ps"
    by (intro daysDiff_24 [OF h]) (simp_all add: inRange_def)
  have in_page: "?ps \<le> getActualDate e dayIndex (pageIndex s)"
    "getActualDate e dayIndex (pageIndex s) \<le> ?ps + (int DAYS_PER_PAGE - 1)"
    using i by (simp_all add: getActualDate_def)
  have "(\<exists>r \<in> set (barber_slots s).
              inRange tok ?ps (?ps + (int DAYS_PER_PAGE - 1)) r
              \<and> daysDiff e ?ps (slot_date r) = int dayIndex
              \<and> start_time r = normalizeTime t \<and> Some (row_id r) \<noteq> excludeSlotId)
        = (\<exists>r \<in> set (barber_slots s).
              barber_id r = tok \<and> slot_date r = getActualDate e dayIndex (pageIndex s)
              \<and> start_time r = normalizeTime t \<and> Some (row_id r) \<noteq> excludeSlotId)"
  proof (rule bex_cong [OF refl])
    fix r
    show "(inRange tok ?ps (?ps + (int DAYS_PER_PAGE - 1)) r
              \<and> daysDiff e ?ps (slot_date r) = int dayIndex
              \<and> start_time r = normalizeTime t \<and> Some (row_id r) \<noteq> excludeSlotId)
        = (barber_id r = tok \<and> slot_date r = getActualDate e dayIndex (pageIndex s)
              \<and> start_time r = normalizeTime t \<and> Some (row_id r) \<noteq> excludeSlotId)"
      using col [of r] in_page by (auto simp: inRange_def getActualDate_def)
  qed
  then show ?thesis
    unfolding isDuplicateTime_loaded [OF b tok acc i t stored] .
qed

text \<open>
  C7. The claim fails in a week in which the clock is put forward: the day index that
  \<open>loadSlots\<close> computes for a fetched slot is the floor of a difference of local midnights
  divided by 24 hours, which after the day of 23 hours is one less than the number of
  calendar days. With today day 100, the clock put forward during day 101, and one stored
  slot, dated 102 at 10:00, the load puts the slot on the day whose date is 101: there
  \<open>isDuplicateTime\<close> finds 10:00 although day 101 has no slot in the store, and on the day
  whose date is 102 it does not find it although the store holds it.
\<close>

theorem isDuplicateTime_spring_forward:
  "map slot_date (barber_slots (exampleWorld [exampleRow ''c'' 102 ''10:00:00'' False])) = [102]
   \<and> map date (weekSchedule
        (loadSlots springForwardEnv (exampleWorld [exampleRow ''c'' 102 ''10:00:00'' False])))
       = [100, 101, 102, 103, 104, 105, 106, 107]
   \<and> map (map id' \<circ> slots) (weekSchedule
        (loadSlots springForwardEnv (exampleWorld [exampleRow ''c'' 102 ''10:00:00'' False])))
       = [[], [''c''], [], [], [], [], [], []]
   \<and> isDuplicateTime
        (loadSlots springForwardEnv (exampleWorld [exampleRow ''c'' 102 ''10:00:00'' False]))
        1 ''10:00'' None
   \<and> \<not> isDuplicateTime
        (loadSlots springForwardEnv (exampleWorld [exampleRow ''c'' 102 ''10:00:00'' False]))
        2 ''10:00'' None
   \<and> isDuplicateTime
        (loadSlots exampleEnv (exampleWorld [exampleRow ''c'' 102 ''10:00:00'' False]))
        2 ''10:00'' None"
proof -
  let ?s = "exampleWorld [exampleRow ''c'' 102 ''10:00:00'' False]"
  have a: "map slot_date (barber_slots ?s) = [102]" by code_simp
  have b: "map date (weekSchedule (loadSlots springForwardEnv ?s))
           = [100, 101, 102, 103, 104, 105, 106, 107]" by code_simp
  have c: "map (map id' \<circ> slots) (weekSchedule (loadSlots springForwardEnv ?s))
           = [[], [''c''], [], [], [], [], [], []]" by code_simp
  have d: "isDuplicateTime (loadSlots springForwardEnv ?s) 1 ''10:00'' None" by code_simp
  have "isDuplicateTime (loadSlots springForwardEnv ?s) 2 ''10:00'' None = False" by code_simp
  then have e: "\<not> isDuplicateTime (loadSlots springForwardEnv ?s) 2 ''10:00'' None" by simp
  have f: "isDuplicateTime (loadSlots exampleEnv ?s) 2 ''10:00'' None" by code_simp
  show ?thesis using a b c d e f by (intro conjI)
qed

end
